theory Spec2Isabelle
  imports Main "HOL-Library.Char_ord" "HOL-Library.List_Lexorder" "HOL-Library.Sublist"
begin

section \<open>Python string helpers\<close>

text \<open>
  Strings are lists of characters. \<open>split_sep c s\<close> is Python's \<^verbatim>\<open>s.split(c)\<close> for a
  one-character separator: it never returns the empty list (\<^verbatim>\<open>''.split('.') == ['']\<close>).
  \<open>join_sep\<close> is \<^verbatim>\<open>sep.join(parts)\<close>.
\<close>

fun split_sep :: "char \<Rightarrow> string \<Rightarrow> string list" where
  "split_sep c [] = [[]]"
| "split_sep c (x # xs) =
     (if x = c then [] # split_sep c xs
      else (x # hd (split_sep c xs)) # tl (split_sep c xs))"

fun join_sep :: "string \<Rightarrow> string list \<Rightarrow> string" where
  "join_sep s [] = []"
| "join_sep s [p] = p"
| "join_sep s (p # q # ps) = p @ s @ join_sep s (q # ps)"

section \<open>Semantic versions\<close>

text \<open>
  Modelled from the spec: \<^verbatim>\<open>semver.parse_version_info\<close> and \<^verbatim>\<open>str(VersionInfo)\<close> belong to
  the third-party semver package and are not among the sources. The spec describes the
  accepted strings as strict semver, \<^verbatim>\<open>major.minor.patch[-prerelease]\<close>, re-serialised
  canonically. A numeric component is \<^verbatim>\<open>0\<close> or a digit string without a leading zero; a
  prerelease is a non-empty dot-separated list of non-empty identifiers over
  \<^verbatim>\<open>[0-9A-Za-z-]\<close>, where an identifier of digits only is a numeric component (no leading
  zero). The spec names no build metadata, so none is accepted here.
\<close>

record version_info =
  major :: nat
  minor :: nat
  patch :: nat
  prerelease :: "string option"

definition is_digit :: "char \<Rightarrow> bool" where
  "is_digit c = (c \<in> set ''0123456789'')"

definition digit_val :: "char \<Rightarrow> nat" where
  "digit_val c = of_char c - 48"

definition digit_char :: "nat \<Rightarrow> char" where
  "digit_char d = ''0123456789'' ! d"

definition read_nat :: "string \<Rightarrow> nat" where
  "read_nat ds = foldl (\<lambda>n d. 10 * n + digit_val d) 0 ds"

fun show_nat :: "nat \<Rightarrow> string" where
  "show_nat n = (if n < 10 then [digit_char n] else show_nat (n div 10) @ [digit_char (n mod 10)])"

declare show_nat.simps [simp del]

definition numeric_component :: "string \<Rightarrow> bool" where
  "numeric_component ds =
     (ds \<noteq> [] \<and> list_all is_digit ds \<and> (hd ds = CHR ''0'' \<longrightarrow> ds = ''0''))"

definition is_ident_char :: "char \<Rightarrow> bool" where
  "is_ident_char c =
     (is_digit c \<or> c = CHR ''-''
      \<or> (CHR ''a'' \<le> c \<and> c \<le> CHR ''z'') \<or> (CHR ''A'' \<le> c \<and> c \<le> CHR ''Z''))"

definition valid_identifier :: "string \<Rightarrow> bool" where
  "valid_identifier ident =
     (ident \<noteq> [] \<and> list_all is_ident_char ident
      \<and> (list_all is_digit ident \<longrightarrow> numeric_component ident))"

definition valid_prerelease :: "string \<Rightarrow> bool" where
  "valid_prerelease p = list_all valid_identifier (split_sep CHR ''.'' p)"

definition parse_version_info :: "string \<Rightarrow> version_info option" where
  "parse_version_info s =
     (let parts = split_sep CHR ''.'' s in
      if length parts < 3 then None
      else
        let ma = parts ! 0;
            mi = parts ! 1;
            rest = join_sep ''.'' (drop 2 parts);
            pa = takeWhile (\<lambda>c. c \<noteq> CHR ''-'') rest;
            pre = dropWhile (\<lambda>c. c \<noteq> CHR ''-'') rest
        in if numeric_component ma \<and> numeric_component mi \<and> numeric_component pa
              \<and> (pre = [] \<or> valid_prerelease (tl pre))
           then Some \<lparr>major = read_nat ma, minor = read_nat mi, patch = read_nat pa,
                      prerelease = (if pre = [] then None else Some (tl pre))\<rparr>
           else None)"

definition str_version_info :: "version_info \<Rightarrow> string" where
  "str_version_info v =
     show_nat (major v) @ ''.'' @ show_nat (minor v) @ ''.'' @ show_nat (patch v)
     @ (case prerelease v of None \<Rightarrow> [] | Some p \<Rightarrow> ''-'' @ p)"

section \<open>The version reference normalizer\<close>

text \<open>
  \<^verbatim>\<open>click.BadParameter\<close> carries a formatted message; the model keeps the message's kind
  and the strings interpolated into it:
  \<^item> \<open>AmbiguousMinor value tag branch\<close> is "Using a minor version (value) is ambiguous.
    Use a release tag (e.g. tag) or a release branch (e.g. branch) instead.";
  \<^item> \<open>NotSemver\<close> is "needs to be in semver format M.m[.p[-r]]".
\<close>

datatype bad_parameter = AmbiguousMinor string string string | NotSemver

definition parse_version :: "string \<Rightarrow> bad_parameter + version_info" where
  "parse_version version =
     (case parse_version_info version of None \<Rightarrow> Inl NotSemver | Some v \<Rightarrow> Inr v)"

definition validate_version :: "string \<Rightarrow> string list \<Rightarrow> bad_parameter + string" where
  "validate_version value ignore =
     (if value \<in> set ignore then Inr value
      else
        let parts = split_sep CHR ''.'' value in
        if length parts = 2 then
          Inl (AmbiguousMinor value (value @ ''.1'') (value @ ''.x''))
        else if length parts = 3 \<and> last parts = ''x'' then
          (case parse_version (join_sep ''.'' (parts[2 := ''0''])) of
             Inl e \<Rightarrow> Inl e
           | Inr version_info \<Rightarrow>
               Inr (show_nat (major version_info) @ ''.'' @ show_nat (minor version_info) @ ''.x''))
        else
          (case parse_version (join_sep ''.'' parts) of
             Inl e \<Rightarrow> Inl e
           | Inr version_info \<Rightarrow> Inr (str_version_info version_info)))"

section \<open>Console output, effects and outcomes\<close>

text \<open>
  A run is observed through the list of its effects, in order. An \<open>Echo\<close> is one call of an
  \<^verbatim>\<open>echo_*\<close> function; its message keeps the call site's format string as a constructor and
  the values interpolated into it as arguments, so two call sites never produce the same
  event. The format strings are:
  \<^item> \<open>Text s\<close>: the string \<open>s\<close> itself (a title, a URL, a body, a menu value, \<^verbatim>\<open>'Url: '\<close>);
  \<^item> \<open>Value v\<close>: a variable echoed as it is, holding a string or \<^verbatim>\<open>None\<close>;
  \<^item> \<open>CardUrl u\<close>: \<^verbatim>\<open>response.json().get('url')\<close>;
  \<^item> \<open>WillCreateCard team\<close>: \<^verbatim>\<open>'Will create a card for team {team}: '\<close>;
  \<^item> \<open>RateLimitRetry a n w\<close>: \<^verbatim>\<open>'Attempt a of n: A rate limit in effect, retrying in w seconds...'\<close>;
  \<^item> \<open>ErrorRetry a n w\<close>: \<^verbatim>\<open>'Attempt a of n: An error has occurred, retrying in w seconds...'\<close>;
  \<^item> \<open>CardError e\<close>: \<^verbatim>\<open>'Error: {error}'\<close>;
  \<^item> \<open>CreatedCard team\<close>: \<^verbatim>\<open>'Created card for team {team}: '\<close>;
  \<^item> \<open>GithubRateLimited x\<close>: \<^verbatim>\<open>'Error getting info for #x. Please set a GitHub HTTPS token to avoid rate limits.'\<close>;
  \<^item> \<open>NotAPullRequest c\<close>: \<^verbatim>\<open>'Skipping #c, not a pull request...'\<close>;
  \<^item> \<open>AlreadySeen c\<close>: \<^verbatim>\<open>'Already seen PR #c, skipping it.'\<close>;
  \<^item> \<open>SkippingDocumentation c\<close>: \<^verbatim>\<open>'Skipping documentation {format_commit_id(c)}.'\<close>;
  \<^item> \<open>MilestoneMismatch m c\<close>: \<^verbatim>\<open>'Looking for milestone m, skipping {format_commit_id(c)}.'\<close>;
  \<^item> \<open>PrHeading i n t\<close>: \<^verbatim>\<open>'\n(i of n) t'\<close>, the progress status and the title;
  \<^item> \<open>OptionsText options\<close>: the menu, one \<^verbatim>\<open>'key - value'\<close> line per option;
  \<^item> \<open>NotValidOption c\<close>: the choice error \<^verbatim>\<open>'`c` is not a valid option.'\<close>;
  \<^item> \<open>OptionsPrompt v\<close>: \<^verbatim>\<open>'Choose an option (default v): '\<close>;
  \<^item> \<open>Skipped c\<close>: \<^verbatim>\<open>'Skipped {format_commit_id(c)}'\<close>;
  \<^item> \<open>ExitedAt c\<close>: \<^verbatim>\<open>'Exited at {format_commit_id(c)}'\<close>.
  The other events are the calls that leave the process (\<open>GetPr\<close>, \<open>GetPrFromHash\<close>,
  \<open>CreateCard\<close>), \<^verbatim>\<open>time.sleep\<close>, and \<open>SeenAdd c\<close>, the statement
  \<^verbatim>\<open>commit_ids.add(c)\<close> of line 251, after which the record is processed.
\<close>

datatype level = Info | Success | Waiting | Warning | Failure

datatype message =
    Text string
  | Value "string option"
  | CardUrl "string option"
  | WillCreateCard string
  | RateLimitRetry nat nat nat
  | ErrorRetry nat nat nat
  | CardError string
  | CreatedCard string
  | GithubRateLimited string
  | NotAPullRequest string
  | AlreadySeen string
  | SkippingDocumentation string
  | MilestoneMismatch string string
  | PrHeading nat nat string
  | OptionsText "(string \<times> string) list"
  | NotValidOption string
  | OptionsPrompt string
  | Skipped string
  | ExitedAt string

datatype event =
    Echo level message
  | Sleep nat
  | GetPr string
  | GetPrFromHash string string
  | CreateCard string "string option" string
  | SeenAdd string

text \<open>
  How a run ends: the loop is exhausted, the operator quits, \<^verbatim>\<open>abort\<close> exits the process, an
  exception escapes, or the run waits for a keypress that never comes (\<open>Blocked\<close>).
\<close>

datatype abort_message = UnsupportedRepo string | AccessDenied

datatype exn =
  ValueError | IndexError | AttributeError | TypeError | StopIteration | KeyError string
  | HTTPError int

datatype outcome = Completed | Quit | Aborted abort_message | Raised exn | Blocked

definition emit :: "event list \<Rightarrow> event list \<times> 'a \<Rightarrow> event list \<times> 'a" where
  "emit evs r = (evs @ fst r, snd r)"

definition truthy :: "string option \<Rightarrow> bool" where
  "truthy v = (case v of None \<Rightarrow> False | Some s \<Rightarrow> s \<noteq> [])"

definition format_opt :: "string option \<Rightarrow> string" where
  "format_opt v = (case v of None \<Rightarrow> ''None'' | Some s \<Rightarrow> s)"

text \<open>
  A key of a JSON object is absent, present with \<^verbatim>\<open>null\<close>, or present with a value.
  \<open>get_default field d\<close> is \<^verbatim>\<open>dict.get(key, d)\<close>: the default only stands in for an absent
  key, and a \<^verbatim>\<open>null\<close> comes back as \<^verbatim>\<open>None\<close>. A Python value that is a string or
  \<^verbatim>\<open>None\<close> is a \<open>string option\<close>; \<open>format_opt\<close> is how an f-string prints it.
\<close>

datatype 'a json_field = Absent | Null | Val 'a

definition get_default :: "'a json_field \<Rightarrow> 'a option \<Rightarrow> 'a option" where
  "get_default field d = (case field of Absent \<Rightarrow> d | Null \<Rightarrow> None | Val v \<Rightarrow> Some v)"

section \<open>The collaborators\<close>

text \<open>
  A pull-request payload, as far as the command reads it. The value of \<open>number\<close>, when
  there is one, is given as \<^verbatim>\<open>str\<close> prints it. \<open>user\<close> is the nested object, of which only
  the key \<^verbatim>\<open>login\<close> is read. \<open>labels\<close> and \<open>milestone_title\<close> are
  what \<^verbatim>\<open>get_pr_labels(pr_data)\<close> and \<^verbatim>\<open>get_pr_milestone(pr_data)\<close> return: both helpers
  live in \<^verbatim>\<open>tooling/github.py\<close>, which is not among the sources, so their results come with
  the payload.
\<close>

record pr_data =
  number :: "string json_field"
  html_url :: "string json_field"
  title :: "string json_field"
  user :: "string json_field json_field"
  body :: "string json_field"
  labels :: "string list"
  milestone_title :: string

record 'a api_response =
  status_code :: int
  json :: 'a

record search_result =
  items :: "pr_data list json_field"

record card_result =
  rate_limited :: bool
  error :: "string option"
  card_url :: "string option"

text \<open>
  The command's parameters and the outside world. \<open>parse_pr_number\<close>, \<open>get_pr\<close> and
  \<open>get_pr_from_hash\<close> (\<^verbatim>\<open>tooling/github.py\<close>) and the Trello client (\<^verbatim>\<open>tooling/trello.py\<close>)
  are not among the sources and are parameters. A remote call may answer differently each
  time, so \<open>get_pr\<close> and \<open>get_pr_from_hash\<close> take the number of GitHub requests made before
  in the run, and \<open>create_card\<close> the number of earlier \<^verbatim>\<open>create_card\<close> calls.
\<close>

record env =
  repo :: string
  milestone :: "string option"
  dry_run :: bool
  parse_pr_number :: "string \<Rightarrow> string option"
  get_pr :: "nat \<Rightarrow> string \<Rightarrow> pr_data api_response"
  get_pr_from_hash :: "nat \<Rightarrow> string \<Rightarrow> string \<Rightarrow> search_result api_response"
  label_team_map :: "string \<Rightarrow> string option"
  create_card :: "nat \<Rightarrow> string \<Rightarrow> string option \<Rightarrow> string \<Rightarrow> card_result"

text \<open>
  Modelled from the spec: \<^verbatim>\<open>CHANGELOG_LABEL_PREFIX\<close> and \<^verbatim>\<open>CHANGELOG_TYPE_NONE\<close> are defined in
  \<^verbatim>\<open>tooling/constants.py\<close>, which is not among the sources. The spec's example of a label
  carrying the explicit "none" changelog type is \<^verbatim>\<open>changelog/no-changelog\<close>.
\<close>

definition CHANGELOG_LABEL_PREFIX :: string where
  "CHANGELOG_LABEL_PREFIX = ''changelog/''"

definition CHANGELOG_TYPE_NONE :: string where
  "CHANGELOG_TYPE_NONE = ''no-changelog''"

text \<open>
  Modelled from the spec: \<^verbatim>\<open>get_next\<close> is defined in \<^verbatim>\<open>dev/utils.py\<close>, which is not among the
  sources. Applied to the options menu it gives the first key, "the default when the user
  presses only Enter"; on an empty mapping Python's \<^verbatim>\<open>next\<close> raises \<^verbatim>\<open>StopIteration\<close>.
\<close>

definition get_next :: "('k \<times> 'v) list \<Rightarrow> 'k option" where
  "get_next obj = (case obj of [] \<Rightarrow> None | (k, v) # _ \<Rightarrow> Some k)"

section \<open>The card dispatcher\<close>

definition creation_attempts :: nat where
  "creation_attempts = 3"

text \<open>
  The inner loop \<^verbatim>\<open>for attempt in range(3)\<close> of \<^verbatim>\<open>create_trello_card\<close>, over the attempts
  that remain. \<open>n\<close> counts the \<^verbatim>\<open>create_card\<close> calls made so far; the result is the events
  and the new count.
\<close>

fun attempt_loop ::
  "(nat \<Rightarrow> string \<Rightarrow> string option \<Rightarrow> string \<Rightarrow> card_result) \<Rightarrow> nat \<Rightarrow> string
    \<Rightarrow> string option \<Rightarrow> string \<Rightarrow> nat list \<Rightarrow> event list \<times> nat" where
  "attempt_loop client n team pr_title body' [] = ([], n)"
| "attempt_loop client n team pr_title body' (attempt # rest) =
     (let response = client n team pr_title body' in
      if rate_limited response then
        emit [CreateCard team pr_title body',
              Echo Warning (RateLimitRetry (attempt + 1) creation_attempts 10), Sleep 10]
          (attempt_loop client (Suc n) team pr_title body' rest)
      else if truthy (error response) then
        (if attempt + 1 = creation_attempts then
           ([CreateCard team pr_title body', Echo Failure (CardError (format_opt (error response)))],
            Suc n)
         else
           emit [CreateCard team pr_title body',
                 Echo Warning (ErrorRetry (attempt + 1) creation_attempts 2), Sleep 2]
             (attempt_loop client (Suc n) team pr_title body' rest))
      else
        ([CreateCard team pr_title body', Echo Success (CreatedCard team),
          Echo Info (CardUrl (card_url response))], Suc n))"

fun create_trello_card ::
  "(nat \<Rightarrow> string \<Rightarrow> string option \<Rightarrow> string \<Rightarrow> card_result) \<Rightarrow> nat \<Rightarrow> string list
    \<Rightarrow> string option \<Rightarrow> string option \<Rightarrow> string option \<Rightarrow> bool \<Rightarrow> event list \<times> nat" where
  "create_trello_card client n [] pr_title pr_url pr_body dry = ([], n)"
| "create_trello_card client n (team # teams) pr_title pr_url pr_body dry =
     (let body' = ''Pull request: '' @ format_opt pr_url @ [CHR 0x0A, CHR 0x0A] @ format_opt pr_body in
      if dry then
        emit [Echo Success (WillCreateCard team), Echo Info (Value pr_title)]
          (create_trello_card client n teams pr_title pr_url pr_body dry)
      else
        (let r = attempt_loop client n team pr_title body' [0..<3] in
         emit (fst r) (create_trello_card client (snd r) teams pr_title pr_url pr_body dry)))"

section \<open>The change enumerator\<close>

text \<open>
  Characters are code points below 256. \<open>py_isspace\<close> is \<^verbatim>\<open>str.isspace\<close> on them and
  \<open>is_linebreak\<close> the line boundaries of \<^verbatim>\<open>str.splitlines\<close>. \<open>split_ws1 line\<close> is
  \<^verbatim>\<open>line.split(None, 1)\<close>: leading whitespace is dropped, the first word is cut off, and the
  rest follows without its leading whitespace when it is not empty.
\<close>

definition py_isspace :: "char \<Rightarrow> bool" where
  "py_isspace c =
     (c \<in> set [CHR 0x09, CHR 0x0A, CHR 0x0B, CHR 0x0C, CHR 0x0D, CHR 0x1C, CHR 0x1D, CHR 0x1E,
               CHR 0x1F, CHR 0x20, CHR 0x85, CHR 0xA0])"

definition is_linebreak :: "char \<Rightarrow> bool" where
  "is_linebreak c =
     (c \<in> set [CHR 0x0A, CHR 0x0B, CHR 0x0C, CHR 0x0D, CHR 0x1C, CHR 0x1D, CHR 0x1E, CHR 0x85])"

fun splitlines :: "string \<Rightarrow> string list" where
  "splitlines [] = []"
| "splitlines (c # cs) =
     (if is_linebreak c then
        (case cs of
           d # ds \<Rightarrow> if c = CHR 0x0D \<and> d = CHR 0x0A then [] # splitlines ds else [] # splitlines cs
         | [] \<Rightarrow> [[]])
      else
        (case splitlines cs of [] \<Rightarrow> [[c]] | l # ls \<Rightarrow> (c # l) # ls))"

definition split_ws1 :: "string \<Rightarrow> string list" where
  "split_ws1 line =
     (let s = dropWhile py_isspace line in
      if s = [] then []
      else
        let word = takeWhile (\<lambda>c. \<not> py_isspace c) s;
            rest = dropWhile py_isspace (dropWhile (\<lambda>c. \<not> py_isspace c) s)
        in if rest = [] then [word] else [word, rest])"

text \<open>Line 182: one tuple per line of the log, the lines taken last to first.\<close>

definition diff_data :: "string \<Rightarrow> string list list" where
  "diff_data stdout = map split_ws1 (rev (splitlines stdout))"

text \<open>
  The log command of line 150 prints one line \<^verbatim>\<open>%H %s\<close> per commit, newest first, with a
  newline between the lines.
\<close>

definition git_log_output :: "(string \<times> string) list \<Rightarrow> string" where
  "git_log_output commits = join_sep [CHR 0x0A] (map (\<lambda>(h, s). h @ '' '' @ s) commits)"

text \<open>
  A commit whose log line splits back into its hash and its subject: the hash is not empty
  and has no whitespace, the subject is not empty, does not start with whitespace and has no
  line break.
\<close>

definition well_formed_commit :: "string \<times> string \<Rightarrow> bool" where
  "well_formed_commit hs =
     (fst hs \<noteq> [] \<and> list_all (\<lambda>c. \<not> py_isspace c) (fst hs)
      \<and> snd hs \<noteq> [] \<and> \<not> py_isspace (hd (snd hs)) \<and> list_all (\<lambda>c. \<not> is_linebreak c) (snd hs))"

section \<open>The review loop\<close>

definition integrations_core_options :: "(string \<times> string) list" where
  "integrations_core_options =
     [(''1'', ''Integrations''), (''2'', ''Containers''), (''3'', ''Core''), (''4'', ''Platform''),
      (''s'', ''Skip''), (''q'', ''Quit'')]"

definition datadog_agent_options :: "(string \<times> string) list" where
  "datadog_agent_options =
     [(''1'', ''Core''), (''2'', ''Containers''), (''3'', ''Logs''), (''4'', ''Platform''),
      (''5'', ''Process''), (''6'', ''Trace''), (''7'', ''Integrations''),
      (''s'', ''Skip''), (''q'', ''Quit'')]"

text \<open>The values fixed before the loop starts (lines 183 to 201).\<close>

record menu =
  options :: "(string \<times> string) list"
  default_option :: string
  default_value :: string
  num_changes :: nat

text \<open>
  The state the loop changes: the run-scoped set of commit ids, the numbers of GitHub
  requests and \<^verbatim>\<open>create_card\<close> calls made, and the keypresses still to come. An element of
  \<open>keys\<close> is what one \<^verbatim>\<open>click.getchar().strip()\<close> returns; when none is left the run waits.
\<close>

record state =
  commit_ids :: "string set"
  github_calls :: nat
  trello_calls :: nat
  keys :: "string list"

datatype step = Next state | Stop outcome

text \<open>
  The local variables of one iteration as the prompt loop has them. Title, URL and author
  are strings or \<^verbatim>\<open>None\<close>. The body is a string: with a body that is \<^verbatim>\<open>None\<close> line 304
  raises in the first turn, before a key is read, and that case is decided in
  \<open>process_pr\<close> below, where the loop is entered.
\<close>

record pr_vars =
  commit_id :: string
  pr_title :: "string option"
  pr_url :: "string option"
  pr_author :: "string option"
  pr_body :: string
  pr_labels :: "string list"
  pr_milestone :: string

text \<open>Lines 253 to 262: the scan of the sorted labels. \<^verbatim>\<open>label.split('/', 1)[1]\<close> raises
  \<^verbatim>\<open>IndexError\<close> when the label has no slash.\<close>

definition split_once :: "char \<Rightarrow> string \<Rightarrow> string list" where
  "split_once c s =
     (if c \<in> set s then [takeWhile (\<lambda>x. x \<noteq> c) s, tl (dropWhile (\<lambda>x. x \<noteq> c) s)] else [s])"

fun label_flags :: "string list \<Rightarrow> bool \<Rightarrow> bool \<Rightarrow> exn + bool \<times> bool" where
  "label_flags [] documentation_pr nochangelog_pr = Inr (documentation_pr, nochangelog_pr)"
| "label_flags (label # rest) documentation_pr nochangelog_pr =
     (let documentation_pr' = (if prefix ''documentation'' label then True else documentation_pr) in
      if prefix CHANGELOG_LABEL_PREFIX label then
        (case split_once CHR ''/'' label of
           _ # changelog_type # _ \<Rightarrow>
             label_flags rest documentation_pr'
               (if changelog_type \<noteq> CHANGELOG_TYPE_NONE then False else nochangelog_pr)
         | _ \<Rightarrow> Inl IndexError)
      else label_flags rest documentation_pr' nochangelog_pr)"

text \<open>
  Lines 288 to 311: what one turn of the prompt shows. \<open>prompt_head\<close> is what lines 288 to
  301 show, before line 304 strips the body.
\<close>

definition strip_cr :: "string \<Rightarrow> string" where
  "strip_cr s = rev (dropWhile (\<lambda>c. c = CHR 0x0D) (rev (dropWhile (\<lambda>c. c = CHR 0x0D) s)))"

definition prompt_head ::
  "menu \<Rightarrow> nat \<Rightarrow> string option \<Rightarrow> string option \<Rightarrow> string option \<Rightarrow> string list \<Rightarrow> string
    \<Rightarrow> event list" where
  "prompt_head m i title' url' author' labels' milestone' =
     [Echo Success (PrHeading i (num_changes m) (format_opt title')),
      Echo Success (Text ''Url: ''), Echo Info (Value url'),
      Echo Success (Text ''Author: ''), Echo Info (Value author'),
      Echo Success (Text ''Labels: ''), Echo Info (Text (join_sep '', '' labels'))]
     @ (if milestone' \<noteq> [] then
          [Echo Success (Text ''Milestone: ''), Echo Info (Text milestone')]
        else [])"

definition prompt_display :: "menu \<Rightarrow> nat \<Rightarrow> pr_vars \<Rightarrow> string option \<Rightarrow> event list" where
  "prompt_display m i pr choice_error =
     prompt_head m i (pr_title pr) (pr_url pr) (pr_author pr) (pr_labels pr) (pr_milestone pr)
     @ [Echo Info (Text (strip_cr (pr_body pr))), Echo Info (OptionsText (options m))]
     @ (case choice_error of None \<Rightarrow> [] | Some choice \<Rightarrow> [Echo Warning (NotValidOption choice)])
     @ [Echo Waiting (OptionsPrompt (default_value m))]"

text \<open>Lines 314 to 316: read keys until one is not the null byte.\<close>

fun read_choice :: "string list \<Rightarrow> (string \<times> string list) option" where
  "read_choice [] = None"
| "read_choice (k # ks) = (if k = [CHR 0x00] then read_choice ks else Some (k, ks))"

text \<open>
  Lines 287 to 340: the prompt loop. \<open>choice_error\<close> is \<open>None\<close> for the empty string and
  \<open>Some choice\<close> for the error about the rejected \<open>choice\<close>.
\<close>

function prompt_loop ::
  "env \<Rightarrow> menu \<Rightarrow> nat \<Rightarrow> pr_vars \<Rightarrow> string option \<Rightarrow> state \<Rightarrow> event list \<times> step" where
  "prompt_loop e m i pr choice_error st =
     (case read_choice (keys st) of
        None \<Rightarrow> (prompt_display m i pr choice_error, Stop Blocked)
      | Some (key, ks) \<Rightarrow>
          (let choice = (if key = [] then default_option m else key) in
           case map_of (options m) choice of
             None \<Rightarrow>
               emit (prompt_display m i pr choice_error @ [Echo Info (Text choice)])
                 (prompt_loop e m i pr (Some choice) (st\<lparr>keys := ks\<rparr>))
           | Some v \<Rightarrow>
               if v = ''Skip'' then
                 (prompt_display m i pr choice_error
                    @ [Echo Info (Text v), Echo Info (Skipped (commit_id pr))],
                  Next (st\<lparr>keys := ks\<rparr>))
               else if v = ''Quit'' then
                 (prompt_display m i pr choice_error
                    @ [Echo Info (Text v), Echo Warning (ExitedAt (commit_id pr))],
                  Stop Quit)
               else
                 (let r = create_trello_card (create_card e) (trello_calls st) [v]
                            (pr_title pr) (pr_url pr) (Some (pr_body pr)) (dry_run e)
                  in (prompt_display m i pr choice_error @ [Echo Info (Text v)] @ fst r,
                      Next (st\<lparr>keys := ks, trello_calls := snd r\<rparr>)))))"
  by pat_completeness auto
termination
proof (relation "measure (\<lambda>(e, m, i, pr, choice_error, st). length (keys st))")
  show "wf (measure (\<lambda>(e, m, i, pr, choice_error, st). length (keys st)))"
    by simp
next
  fix e :: env and m :: menu and i :: nat and pr :: pr_vars and choice_error :: "string option"
    and st :: state and x2 :: "string \<times> string list" and key :: string
    and ks :: "string list" and choice :: string
  assume r: "read_choice (keys st) = Some x2" and x: "(key, ks) = x2"
  have shorter: "read_choice xs = Some (k, ys) \<Longrightarrow> length ys < length xs" for xs k ys
    by (induction xs) (auto split: if_splits)
  have "length ks < length (keys st)"
    using r x shorter by metis
  then show "((e, m, i, pr, Some choice, st\<lparr>keys := ks\<rparr>), e, m, i, pr, choice_error, st)
              \<in> measure (\<lambda>(e, m, i, pr, choice_error, st). length (keys st))"
    by simp
qed

declare prompt_loop.simps [simp del]

text \<open>
  Line 274: \<^verbatim>\<open>pr_data.get('user', {}).get('login', '')\<close>. A \<^verbatim>\<open>user\<close> that is \<^verbatim>\<open>null\<close> has no
  \<^verbatim>\<open>get\<close>.
\<close>

definition author_of :: "string json_field json_field \<Rightarrow> exn + string option" where
  "author_of u =
     (case u of
        Absent \<Rightarrow> Inr (Some [])
      | Null \<Rightarrow> Inl AttributeError
      | Val login \<Rightarrow> Inr (get_default login (Some [])))"

text \<open>
  Lines 253 to 340: what happens to a record that passed the duplicate check. When no
  label maps to a team and the body is \<^verbatim>\<open>None\<close>, the first turn of the prompt shows lines 288
  to 301 and line 304 raises; otherwise the prompt loop runs with the body, a string.
\<close>

definition process_pr ::
  "env \<Rightarrow> menu \<Rightarrow> state \<Rightarrow> nat \<Rightarrow> string \<Rightarrow> string \<Rightarrow> pr_data \<Rightarrow> event list \<times> step" where
  "process_pr e m st i cid commit_subject data =
     (let labels' = sort (labels data) in
      case label_flags labels' False True of
        Inl x \<Rightarrow> ([], Stop (Raised x))
      | Inr (documentation_pr, nochangelog_pr) \<Rightarrow>
          if documentation_pr \<and> nochangelog_pr then
            ([Echo Info (SkippingDocumentation cid)], Next st)
          else if truthy (milestone e) \<and> Some (milestone_title data) \<noteq> milestone e then
            ([Echo Info (MilestoneMismatch (format_opt (milestone e)) cid)], Next st)
          else
            (let url' = get_default (html_url data)
                          (Some (''https://github.com/DataDog/'' @ repo e @ ''/pull/'' @ cid));
                 title' = get_default (title data) (Some commit_subject)
             in case author_of (user data) of
                  Inl x \<Rightarrow> ([], Stop (Raised x))
                | Inr author' \<Rightarrow>
                    (let body' = get_default (body data) (Some []);
                         teams = List.map_filter (label_team_map e) labels'
                     in if teams \<noteq> [] then
                          (let r = create_trello_card (create_card e) (trello_calls st) teams
                                     title' url' body' (dry_run e)
                           in (fst r, Next (st\<lparr>trello_calls := snd r\<rparr>)))
                        else
                          (case body' of
                             None \<Rightarrow>
                               (prompt_head m i title' url' author' labels' (milestone_title data),
                                Stop (Raised AttributeError))
                           | Some b \<Rightarrow>
                               prompt_loop e m i
                                 \<lparr>commit_id = cid, pr_title = title', pr_url = url',
                                  pr_author = author', pr_body = b, pr_labels = labels',
                                  pr_milestone = milestone_title data\<rparr>
                                 None st))))"

text \<open>
  Lines 208 to 246: from a change to a commit id and a payload. \<open>Skip\<close> is the loop's
  \<^verbatim>\<open>continue\<close>, \<open>Halt\<close> an abort or an exception.
\<close>

datatype resolved = Resolved string pr_data | Skip | Halt outcome

definition raise_for_status :: "'a api_response \<Rightarrow> bool" where
  "raise_for_status r = (400 \<le> status_code r \<and> status_code r < 600)"

definition resolve_by_number :: "env \<Rightarrow> nat \<Rightarrow> string \<Rightarrow> event list \<times> resolved" where
  "resolve_by_number e n cid =
     (let api_response = get_pr e n cid in
      if status_code api_response = 401 then ([GetPr cid], Halt (Aborted AccessDenied))
      else if status_code api_response = 403 then
        ([GetPr cid, Echo Failure (GithubRateLimited cid)], Skip)
      else if status_code api_response = 404 then
        ([GetPr cid, Echo Info (NotAPullRequest cid)], Skip)
      else if raise_for_status api_response then
        ([GetPr cid], Halt (Raised (HTTPError (status_code api_response))))
      else ([GetPr cid], Resolved cid (json api_response)))"

text \<open>
  The payload \<^verbatim>\<open>{}\<close>, for which \<^verbatim>\<open>get_pr_labels\<close> and \<^verbatim>\<open>get_pr_milestone\<close> find no label and
  no milestone.
\<close>

definition empty_payload :: pr_data where
  "empty_payload =
     \<lparr>number = Absent, html_url = Absent, title = Absent, user = Absent, body = Absent,
      labels = [], milestone_title = []\<rparr>"

text \<open>
  Lines 238 to 245: \<^verbatim>\<open>pr_data.get('items', [{}])[0]\<close>, with the \<^verbatim>\<open>IndexError\<close> of an empty list
  caught. A \<^verbatim>\<open>null\<close> has no index, and that \<^verbatim>\<open>TypeError\<close> is not caught.
\<close>

definition first_item :: "env \<Rightarrow> string \<Rightarrow> pr_data list json_field \<Rightarrow> exn + pr_data" where
  "first_item e commit_hash found =
     (case found of
        Absent \<Rightarrow> Inr empty_payload
      | Null \<Rightarrow> Inl TypeError
      | Val [] \<Rightarrow>
          Inr (empty_payload\<lparr>number := Val commit_hash,
                 html_url := Val (''https://github.com/DataDog/'' @ repo e @ ''/commit/''
                                    @ commit_hash)\<rparr>)
      | Val (item # _) \<Rightarrow> Inr item)"

definition resolve_by_hash :: "env \<Rightarrow> nat \<Rightarrow> string \<Rightarrow> event list \<times> resolved" where
  "resolve_by_hash e n commit_hash =
     (let api_response = get_pr_from_hash e n commit_hash (repo e) in
      if status_code api_response = 401 then
        ([GetPrFromHash commit_hash (repo e)], Halt (Aborted AccessDenied))
      else if status_code api_response = 403 then
        ([GetPrFromHash commit_hash (repo e), Echo Failure (GithubRateLimited commit_hash)], Skip)
      else if raise_for_status api_response then
        ([GetPrFromHash commit_hash (repo e)], Halt (Raised (HTTPError (status_code api_response))))
      else
        (case first_item e commit_hash (items (json api_response)) of
           Inl x \<Rightarrow> ([GetPrFromHash commit_hash (repo e)], Halt (Raised x))
         | Inr data \<Rightarrow>
             ([GetPrFromHash commit_hash (repo e)],
              Resolved (format_opt (get_default (number data) (Some []))) data)))"

definition resolve :: "env \<Rightarrow> nat \<Rightarrow> string \<Rightarrow> string \<Rightarrow> event list \<times> resolved" where
  "resolve e n commit_hash commit_subject =
     (let parsed = parse_pr_number e commit_subject in
      if truthy parsed then resolve_by_number e n (format_opt parsed)
      else resolve_by_hash e n commit_hash)"

text \<open>
  Lines 207 to 340: one iteration of the loop over \<^verbatim>\<open>enumerate(diff_data, 1)\<close>. A tuple that
  does not have two elements cannot be unpacked into hash and subject.
\<close>

definition loop_body :: "env \<Rightarrow> menu \<Rightarrow> state \<Rightarrow> nat \<Rightarrow> string list \<Rightarrow> event list \<times> step" where
  "loop_body e m st i change =
     (case change of
        [commit_hash, commit_subject] \<Rightarrow>
          (let r = resolve e (github_calls st) commit_hash commit_subject;
               st1 = st\<lparr>github_calls := Suc (github_calls st)\<rparr>
           in case snd r of
                Halt oc \<Rightarrow> (fst r, Stop oc)
              | Skip \<Rightarrow> (fst r, Next st1)
              | Resolved cid data \<Rightarrow>
                  if cid \<noteq> [] \<and> cid \<in> commit_ids st then
                    (fst r @ [Echo Info (AlreadySeen cid)], Next st1)
                  else
                    emit (fst r @ [SeenAdd cid])
                      (process_pr e m (st1\<lparr>commit_ids := insert cid (commit_ids st)\<rparr>)
                         i cid commit_subject data))
      | _ \<Rightarrow> ([], Stop (Raised ValueError)))"

fun main_loop :: "env \<Rightarrow> menu \<Rightarrow> state \<Rightarrow> (nat \<times> string list) list \<Rightarrow> event list \<times> outcome" where
  "main_loop e m st [] = ([], Completed)"
| "main_loop e m st ((i, change) # rest) =
     (case loop_body e m st i change of
        (evs, Next st') \<Rightarrow> emit evs (main_loop e m st' rest)
      | (evs, Stop oc) \<Rightarrow> (evs, oc))"

text \<open>
  Lines 185 to 200: the menu of the repository, its default option \<^verbatim>\<open>get_next(options)\<close>
  and the value \<^verbatim>\<open>options[default_option]\<close> named in the prompt.
\<close>

definition menu_for :: "string \<Rightarrow> nat \<Rightarrow> exn + menu" where
  "menu_for r n =
     (let opts = (if r = ''integrations-core'' then integrations_core_options
                  else datadog_agent_options)
      in case get_next opts of
           None \<Rightarrow> Inl StopIteration
         | Some k \<Rightarrow>
             (case map_of opts k of
                None \<Rightarrow> Inl (KeyError k)
              | Some v \<Rightarrow>
                  Inr \<lparr>options = opts, default_option = k, default_value = v, num_changes = n\<rparr>))"

text \<open>
  The command from line 142 on. Lines 147 to 179 run git; \<open>stdout\<close> is the output of the
  log command that succeeded, and \<open>ks\<close> the keypresses the operator will make.
\<close>

definition initial_state :: "string list \<Rightarrow> state" where
  "initial_state ks = \<lparr>commit_ids = {}, github_calls = 0, trello_calls = 0, keys = ks\<rparr>"

definition testable :: "env \<Rightarrow> string \<Rightarrow> string list \<Rightarrow> event list \<times> outcome" where
  "testable e stdout ks =
     (if repo e \<noteq> ''integrations-core'' \<and> repo e \<noteq> ''datadog-agent'' then
        ([], Aborted (UnsupportedRepo (repo e)))
      else
        (let changes = diff_data stdout in
         case menu_for (repo e) (length changes) of
           Inl x \<Rightarrow> ([], Raised x)
         | Inr m \<Rightarrow>
             main_loop e m (initial_state ks) (zip [1..<Suc (length changes)] changes)))"

section \<open>Classifying events\<close>

text \<open>
  \<open>card_event\<close> holds of the events that \<open>create_trello_card\<close> can produce and
  \<open>prompt_event\<close> of those of the prompt loop, which dispatches too.
\<close>

fun card_message :: "message \<Rightarrow> bool" where
  "card_message (Text _) = True"
| "card_message (Value _) = True"
| "card_message (CardUrl _) = True"
| "card_message (WillCreateCard _) = True"
| "card_message (RateLimitRetry _ _ _) = True"
| "card_message (ErrorRetry _ _ _) = True"
| "card_message (CardError _) = True"
| "card_message (CreatedCard _) = True"
| "card_message _ = False"

fun card_event :: "event \<Rightarrow> bool" where
  "card_event (Echo l msg) = (l \<noteq> Waiting \<and> card_message msg)"
| "card_event (Sleep _) = True"
| "card_event (CreateCard _ _ _) = True"
| "card_event _ = False"

fun prompt_message :: "message \<Rightarrow> bool" where
  "prompt_message (PrHeading _ _ _) = True"
| "prompt_message (OptionsText _) = True"
| "prompt_message (NotValidOption _) = True"
| "prompt_message (OptionsPrompt _) = True"
| "prompt_message (Skipped _) = True"
| "prompt_message (ExitedAt _) = True"
| "prompt_message msg = card_message msg"

fun prompt_event :: "event \<Rightarrow> bool" where
  "prompt_event (Echo l msg) = prompt_message msg"
| "prompt_event (Sleep _) = True"
| "prompt_event (CreateCard _ _ _) = True"
| "prompt_event _ = False"

text \<open>
  \<open>is_fetch\<close> holds of the two requests for pull-request metadata. \<open>handling\<close> holds of
  the events by which a record is filtered (the two skip messages), dispatched (a card is
  created, or announced in a dry run) or prompted (the heading of the prompt).
\<close>

fun is_fetch :: "event \<Rightarrow> bool" where
  "is_fetch (GetPr _) = True"
| "is_fetch (GetPrFromHash _ _) = True"
| "is_fetch _ = False"

fun handling :: "event \<Rightarrow> bool" where
  "handling (Echo l (SkippingDocumentation _)) = True"
| "handling (Echo l (MilestoneMismatch _ _)) = True"
| "handling (Echo l (WillCreateCard _)) = True"
| "handling (Echo l (PrHeading _ _ _)) = True"
| "handling (CreateCard _ _ _) = True"
| "handling _ = False"

text \<open>An environment and a payload for concrete runs.\<close>

definition ok_card :: card_result where
  "ok_card = \<lparr>rate_limited = False, error = None, card_url = Some ''https://trello.com/c/1''\<rparr>"

definition rate_limited_card :: card_result where
  "rate_limited_card = \<lparr>rate_limited = True, error = None, card_url = None\<rparr>"

definition example_payload :: pr_data where
  "example_payload =
     empty_payload\<lparr>number := Val ''10'', title := Val ''Fix the check'',
                   labels := [''team/core'']\<rparr>"

definition example_env :: env where
  "example_env =
     \<lparr>repo = ''integrations-core'', milestone = None, dry_run = False,
      parse_pr_number = (\<lambda>subject. if subject = ''Fixes #10'' then Some ''10'' else None),
      get_pr = (\<lambda>n cid. \<lparr>status_code = 200, json = example_payload\<rparr>),
      get_pr_from_hash = (\<lambda>n commit_hash r. \<lparr>status_code = 200, json = \<lparr>items = Absent\<rparr>\<rparr>),
      label_team_map = (\<lambda>label. if label = ''team/core'' then Some ''Core'' else None),
      create_card = (\<lambda>n team t b. ok_card)\<rparr>"

definition example_menu :: menu where
  "example_menu =
     \<lparr>options = integrations_core_options, default_option = ''1'',
      default_value = ''Integrations'', num_changes = 2\<rparr>"

definition example_pr :: pr_vars where
  "example_pr =
     \<lparr>commit_id = ''10'', pr_title = Some ''Fix the check'',
      pr_url = Some ''https://github.com/DataDog/integrations-core/pull/10'',
      pr_author = Some ''dev'', pr_body = ''Body'', pr_labels = [], pr_milestone = []\<rparr>"

definition example_stdout :: string where
  "example_stdout = ''h2 Fixes #10'' @ [CHR 0x0A] @ ''h1 Fixes #10''"

definition seen_state :: state where
  "seen_state = \<lparr>commit_ids = {''10''}, github_calls = 1, trello_calls = 1, keys = []\<rparr>"

definition empty_seen_state :: state where
  "empty_seen_state = \<lparr>commit_ids = {[]}, github_calls = 1, trello_calls = 0, keys = [''s'']\<rparr>"

definition failing_card :: card_result where
  "failing_card = \<lparr>rate_limited = False, error = Some ''boom'', card_url = None\<rparr>"




section \<open>Splitting, joining and decimal numerals\<close>

lemma split_sep_ne[simp]: "split_sep c s \<noteq> []"
  by (induction s) auto

lemma join_split: "join_sep [c] (split_sep c s) = s"
proof (induction s)
  case Nil show ?case by simp
next
  case (Cons x xs)
  obtain p ps where ps: "split_sep c xs = p # ps" by (cases "split_sep c xs") auto
  with Cons show ?case by (cases ps) auto
qed

lemma split_sep_no_sep: "p \<in> set (split_sep c s) \<Longrightarrow> c \<notin> set p"
proof (induction s arbitrary: p)
  case Nil then show ?case by simp
next
  case (Cons x xs)
  obtain q qs where qs: "split_sep c xs = q # qs" by (cases "split_sep c xs") auto
  with Cons show ?case by (auto split: if_splits)
qed

lemma split_join: "ps \<noteq> [] \<Longrightarrow> \<forall>p \<in> set ps. c \<notin> set p \<Longrightarrow> split_sep c (join_sep [c] ps) = ps"
proof (induction "[c]" ps rule: join_sep.induct)
  case 1 then show ?case by simp
next
  case (2 p)
  then show ?case by (induction p) auto
next
  case (3 p q ps)
  then have IH: "split_sep c (join_sep [c] (q # ps)) = q # ps" by simp
  from 3(3) have "c \<notin> set p" by simp
  then show ?case using IH by (induction p) auto
qed

lemma read_nat_snoc: "read_nat (ds @ [d]) = 10 * read_nat ds + digit_val d"
  by (simp add: read_nat_def)

lemma is_digit_cases: "is_digit d \<Longrightarrow> digit_val d < 10 \<and> digit_char (digit_val d) = d \<and> (d \<noteq> CHR ''0'' \<longrightarrow> 0 < digit_val d)"
  by (auto simp: is_digit_def digit_val_def digit_char_def)

lemma show_read_pos:
  "ds \<noteq> [] \<Longrightarrow> list_all is_digit ds \<Longrightarrow> hd ds \<noteq> CHR ''0'' \<Longrightarrow>
   0 < read_nat ds \<and> show_nat (read_nat ds) = ds"
proof (induction ds rule: rev_induct)
  case Nil then show ?case by simp
next
  case (snoc d ds)
  from snoc.prems have d: "is_digit d" by simp
  show ?case
  proof (cases "ds = []")
    case True
    with snoc.prems d show ?thesis
      using is_digit_cases[of d] by (simp add: read_nat_def show_nat.simps[of "digit_val d"])
  next
    case False
    with snoc have IH: "0 < read_nat ds" "show_nat (read_nat ds) = ds" by auto
    have v: "digit_val d < 10" "digit_char (digit_val d) = d" using is_digit_cases[OF d] by auto
    let ?n = "10 * read_nat ds + digit_val d"
    have "\<not> ?n < 10" using IH(1) by simp
    moreover have "?n div 10 = read_nat ds" "?n mod 10 = digit_val d" using v(1) by auto
    ultimately have "show_nat ?n = ds @ [d]"
      using IH(2) v(2) by (subst show_nat.simps) simp
    then show ?thesis using IH(1) by (simp add: read_nat_snoc)
  qed
qed

lemma show_read: "numeric_component ds \<Longrightarrow> show_nat (read_nat ds) = ds"
proof (cases "hd ds = CHR ''0''")
  case True
  assume "numeric_component ds"
  with True have "ds = ''0''" by (simp add: numeric_component_def)
  then show ?thesis by (simp add: read_nat_def digit_val_def show_nat.simps digit_char_def)
next
  case False
  assume "numeric_component ds"
  with False show ?thesis using show_read_pos[of ds] by (simp add: numeric_component_def)
qed

lemma join_sep_3: "r \<noteq> [] \<Longrightarrow> join_sep s (a # b # r) = a @ s @ b @ s @ join_sep s r"
  by (cases r) auto

lemma parse_roundtrip:
  assumes "parse_version_info s = Some v"
  shows "str_version_info v = s"
proof -
  let ?parts = "split_sep CHR ''.'' s"
  let ?rest = "join_sep ''.'' (drop 2 ?parts)"
  from assms have len: "\<not> length ?parts < 3"
    by (auto simp: parse_version_info_def Let_def split: if_splits)
  then obtain a b r where parts: "?parts = a # b # r" and r: "r \<noteq> []"
    by (cases ?parts; cases "tl ?parts"; cases "tl (tl ?parts)") auto
  have "join_sep ''.'' (a # b # r) = a @ ''.'' @ b @ ''.'' @ join_sep ''.'' r"
    by (rule join_sep_3[OF r])
  moreover have "join_sep ''.'' (a # b # r) = s"
    using join_split[of "CHR ''.''" s] unfolding parts by simp
  ultimately have s: "s = a @ ''.'' @ b @ ''.'' @ join_sep ''.'' r" by simp
  from assms parts r have
    nc: "numeric_component a" "numeric_component b"
        "numeric_component (takeWhile (\<lambda>c. c \<noteq> CHR ''-'') (join_sep ''.'' r))"
    and v: "v = \<lparr>major = read_nat a, minor = read_nat b,
                 patch = read_nat (takeWhile (\<lambda>c. c \<noteq> CHR ''-'') (join_sep ''.'' r)),
                 prerelease = (if dropWhile (\<lambda>c. c \<noteq> CHR ''-'') (join_sep ''.'' r) = [] then None
                               else Some (tl (dropWhile (\<lambda>c. c \<noteq> CHR ''-'') (join_sep ''.'' r))))\<rparr>"
    by (auto simp: parse_version_info_def Let_def split: if_splits)
  let ?pre = "dropWhile (\<lambda>c. c \<noteq> CHR ''-'') (join_sep ''.'' r)"
  have pre: "?pre = (case prerelease v of None \<Rightarrow> [] | Some p \<Rightarrow> ''-'' @ p)"
  proof (cases ?pre)
    case Nil then show ?thesis using v by simp
  next
    case (Cons x xs)
    have "x = CHR ''-''" using hd_dropWhile[of "\<lambda>c. c \<noteq> CHR ''-''" "join_sep ''.'' r"] Cons by auto
    then show ?thesis using v Cons by simp
  qed
  have "str_version_info v = a @ ''.'' @ b @ ''.'' @ takeWhile (\<lambda>c. c \<noteq> CHR ''-'') (join_sep ''.'' r) @ ?pre"
    unfolding str_version_info_def pre[symmetric] using v nc by (simp add: show_read)
  then show ?thesis using s by simp
qed

lemma split_sep_append: "split_sep c (a @ c # b) = split_sep c a @ split_sep c b"
proof (induction a)
  case Nil show ?case by simp
next
  case (Cons x xs)
  obtain p ps where ps: "split_sep c xs = p # ps" by (cases "split_sep c xs") auto
  with Cons show ?case by simp
qed

lemma not_numeric_x: "\<not> numeric_component ''x''"
  by (simp add: numeric_component_def is_digit_def)

lemma is_digit_no_dot: "is_digit c \<Longrightarrow> c \<noteq> CHR ''.''"
  by (auto simp: is_digit_def)

lemma numeric_no_dot: "numeric_component ds \<Longrightarrow> CHR ''.'' \<notin> set ds"
  using is_digit_no_dot by (auto simp: numeric_component_def list_all_iff)

lemma parse_version_info_parts:
  assumes "split_sep CHR ''.'' s = a # b # r" "r \<noteq> []"
  shows "parse_version_info s =
     (let rest = join_sep ''.'' r;
          pa = takeWhile (\<lambda>c. c \<noteq> CHR ''-'') rest;
          pre = dropWhile (\<lambda>c. c \<noteq> CHR ''-'') rest
      in if numeric_component a \<and> numeric_component b \<and> numeric_component pa
              \<and> (pre = [] \<or> valid_prerelease (tl pre))
         then Some \<lparr>major = read_nat a, minor = read_nat b, patch = read_nat pa,
                    prerelease = (if pre = [] then None else Some (tl pre))\<rparr>
         else None)"
  using assms unfolding parse_version_info_def by (cases r) (simp_all add: Let_def)

lemma parse_version_info_short:
  "length (split_sep CHR ''.'' s) < 3 \<Longrightarrow> parse_version_info s = None"
  unfolding parse_version_info_def by (simp add: Let_def)

lemma validate_version_full:
  assumes "parse_version_info value = Some v"
  shows "validate_version value ignore = Inr value"
proof -
  define parts where "parts = split_sep CHR ''.'' value"
  from assms have len: "\<not> length parts < 3"
    using parse_version_info_short[of "value"] unfolding parts_def by auto
  then obtain a b r where abr: "parts = a # b # r" "r \<noteq> []"
    by (cases parts; cases "tl parts"; cases "tl (tl parts)") auto
  have nox: "\<not> (length parts = 3 \<and> last parts = ''x'')"
  proof
    assume h: "length parts = 3 \<and> last parts = ''x''"
    with abr have "r = [''x'']" by (cases r) auto
    have "split_sep CHR ''.'' value = a # b # [''x'']" using abr \<open>r = [''x'']\<close> unfolding parts_def by simp
    from parse_version_info_parts[OF this] have "parse_version_info value = None"
      by (simp add: Let_def not_numeric_x)
    with assms show False by simp
  qed
  have rt: "str_version_info v = value" by (rule parse_roundtrip[OF assms])
  have j: "join_sep ''.'' parts = value" unfolding parts_def by (rule join_split)
  have len2: "length parts \<noteq> 2" using len by simp
  show ?thesis
  proof (cases "value \<in> set ignore")
    case True
    then show ?thesis by (simp add: validate_version_def)
  next
    case False
    have "validate_version value ignore =
        (case parse_version (join_sep ''.'' parts) of Inl e \<Rightarrow> Inl e
         | Inr version_info \<Rightarrow> Inr (str_version_info version_info))"
      unfolding validate_version_def Let_def parts_def[symmetric]
      using False len2 nox by (simp only: if_False simp_thms)
    also have "\<dots> = Inr value"
      unfolding j parse_version_def assms by (simp add: rt)
    finally show ?thesis .
  qed
qed

lemma validate_version_branch_core:
  assumes parts: "split_sep CHR ''.'' value = [a, b, ''x'']"
    and p0: "parse_version_info (join_sep ''.'' [a, b, ''0'']) = Some v0"
  shows "validate_version value ignore = Inr value"
proof -
  have "a \<in> set (split_sep CHR ''.'' value)" "b \<in> set (split_sep CHR ''.'' value)"
    unfolding parts by simp_all
  then have nodot: "CHR ''.'' \<notin> set a" "CHR ''.'' \<notin> set b"
    by (auto dest: split_sep_no_sep)
  have "split_sep CHR ''.'' (join_sep ''.'' [a, b, ''0'']) = [a, b, ''0'']"
    by (rule split_join) (use nodot in auto)
  from parse_version_info_parts[OF this] p0
  have nc: "numeric_component a" "numeric_component b"
    and v0: "major v0 = read_nat a" "minor v0 = read_nat b"
    by (auto simp: Let_def split: if_splits)
  have "join_sep ''.'' (split_sep CHR ''.'' value) = value" by (rule join_split)
  then have val: "a @ ''.'' @ b @ ''.x'' = value" unfolding parts by simp
  have upd: "[a, b, ''x''][2 := ''0''] = [a, b, ''0'']" by (simp add: numeral_2_eq_2)
  have out: "show_nat (major v0) @ ''.'' @ show_nat (minor v0) @ ''.x'' = value"
    unfolding v0 show_read[OF nc(1)] show_read[OF nc(2)] by (rule val)
  show ?thesis
  proof (cases "value \<in> set ignore")
    case True
    then show ?thesis by (simp add: validate_version_def)
  next
    case False
    have "validate_version value ignore =
        (case parse_version (join_sep ''.'' ([a, b, ''x''][2 := ''0''])) of Inl e \<Rightarrow> Inl e
         | Inr version_info \<Rightarrow>
             Inr (show_nat (major version_info) @ ''.'' @ show_nat (minor version_info) @ ''.x''))"
      unfolding validate_version_def Let_def parts
      using False by simp
    also have "\<dots> = Inr value"
      unfolding upd parse_version_def p0 using out by simp
    finally show ?thesis .
  qed
qed


lemma join_sep_snoc: "r \<noteq> [] \<Longrightarrow> join_sep s (r @ [t]) = join_sep s r @ s @ t"
  by (induction s r rule: join_sep.induct) auto

lemma validate_version_branch:
  assumes p0: "parse_version_info (M @ ''.'' @ m @ ''.0'') = Some v0"
  shows "validate_version (M @ ''.'' @ m @ ''.x'') ignore = Inr (M @ ''.'' @ m @ ''.x'')"
proof -
  define s0 where "s0 = M @ ''.'' @ m @ ''.0''"
  define sx where "sx = M @ ''.'' @ m @ ''.x''"
  define q where "q = split_sep CHR ''.'' (M @ ''.'' @ m)"
  have s0: "split_sep CHR ''.'' s0 = q @ [''0'']"
    using split_sep_append[of "CHR ''.''" "M @ ''.'' @ m" "''0''"] by (simp add: q_def s0_def)
  have sx: "split_sep CHR ''.'' sx = q @ [''x'']"
    using split_sep_append[of "CHR ''.''" "M @ ''.'' @ m" "''x''"] by (simp add: q_def sx_def)
  have "q = split_sep CHR ''.'' M @ split_sep CHR ''.'' m"
    using split_sep_append[of "CHR ''.''" M m] by (simp add: q_def)
  then have "length q \<ge> 2"
    using split_sep_ne[of "CHR ''.''" M] split_sep_ne[of "CHR ''.''" m]
    by (cases "split_sep CHR ''.'' M"; cases "split_sep CHR ''.'' m") auto
  then obtain a b r where q: "q = a # b # r" by (cases q; cases "tl q") auto
  have p0': "parse_version_info s0 = Some v0" using p0 by (simp add: s0_def)
  have "validate_version sx ignore = Inr sx"
  proof (cases "r = []")
    case True
    have j0: "join_sep ''.'' (split_sep CHR ''.'' s0) = s0" by (rule join_split)
    have "join_sep ''.'' [a, b, ''0''] = s0" using j0 unfolding s0 q True by simp
    then have "parse_version_info (join_sep ''.'' [a, b, ''0'']) = Some v0" using p0' by simp
    moreover have "split_sep CHR ''.'' sx = [a, b, ''x'']" unfolding sx q True by simp
    ultimately show ?thesis by (rule validate_version_branch_core[rotated])
  next
    case False
    define u where "u = join_sep ''.'' r"
    let ?P = "\<lambda>c. c \<noteq> CHR ''-''"
    have parts0: "split_sep CHR ''.'' s0 = a # b # (r @ [''0''])" unfolding s0 q by simp
    have partsx: "split_sep CHR ''.'' sx = a # b # (r @ [''x''])" unfolding sx q by simp
    have r0: "join_sep ''.'' (r @ [''0'']) = u @ ''.0''"
      and rx: "join_sep ''.'' (r @ [''x'']) = u @ ''.x''"
      unfolding u_def using join_sep_snoc[OF False] by simp_all
    have e0: "parse_version_info s0 =
       (if numeric_component a \<and> numeric_component b \<and> numeric_component (takeWhile ?P (u @ ''.0''))
            \<and> (dropWhile ?P (u @ ''.0'') = [] \<or> valid_prerelease (tl (dropWhile ?P (u @ ''.0''))))
         then Some \<lparr>major = read_nat a, minor = read_nat b, patch = read_nat (takeWhile ?P (u @ ''.0'')),
                    prerelease = (if dropWhile ?P (u @ ''.0'') = [] then None else Some (tl (dropWhile ?P (u @ ''.0''))))\<rparr>
         else None)"
      using parse_version_info_parts[OF parts0] unfolding r0 Let_def by simp
    have ex: "parse_version_info sx =
       (if numeric_component a \<and> numeric_component b \<and> numeric_component (takeWhile ?P (u @ ''.x''))
            \<and> (dropWhile ?P (u @ ''.x'') = [] \<or> valid_prerelease (tl (dropWhile ?P (u @ ''.x''))))
         then Some \<lparr>major = read_nat a, minor = read_nat b, patch = read_nat (takeWhile ?P (u @ ''.x'')),
                    prerelease = (if dropWhile ?P (u @ ''.x'') = [] then None else Some (tl (dropWhile ?P (u @ ''.x''))))\<rparr>
         else None)"
      using parse_version_info_parts[OF partsx] unfolding rx Let_def by simp
    from p0' e0 have nc: "numeric_component a" "numeric_component b"
      "numeric_component (takeWhile ?P (u @ ''.0''))"
      and pre0: "dropWhile ?P (u @ ''.0'') = [] \<or> valid_prerelease (tl (dropWhile ?P (u @ ''.0'')))"
      by (auto split: if_splits)
    have dash: "CHR ''-'' \<in> set u"
    proof (rule ccontr)
      assume "CHR ''-'' \<notin> set u"
      then have "takeWhile ?P (u @ ''.0'') = u @ takeWhile ?P ''.0''" by (auto simp: takeWhile_append2)
      then have "CHR ''.'' \<in> set (takeWhile ?P (u @ ''.0''))" by simp
      with nc(3) show False using numeric_no_dot by blast
    qed
    then have tw: "takeWhile ?P (u @ t) = takeWhile ?P u"
      and dw: "dropWhile ?P (u @ t) = dropWhile ?P u @ t" for t
      by (auto simp: takeWhile_append1 dropWhile_append1)
    obtain w where w: "dropWhile ?P u = CHR ''-'' # w"
      using dash hd_dropWhile[of ?P u] by (cases "dropWhile ?P u") (auto simp: dropWhile_eq_Nil_conv)
    from pre0 have "valid_prerelease (w @ ''.0'')" unfolding dw w by simp
    then have "valid_prerelease (w @ ''.x'')"
      using split_sep_append[of "CHR ''.''" w "''0''"] split_sep_append[of "CHR ''.''" w "''x''"]
      by (simp add: valid_prerelease_def valid_identifier_def is_ident_char_def is_digit_def)
    then have "parse_version_info sx \<noteq> None"
      unfolding ex tw dw w using nc unfolding tw by simp
    then show ?thesis using validate_version_full by blast
  qed
  then show ?thesis by (simp add: sx_def)
qed

section \<open>Claims about the version reference normalizer\<close>

text \<open>
  Claim C4. A version string that is not in the ignore list and splits on \<^verbatim>\<open>.\<close> into exactly
  two components makes \<open>validate_version\<close> raise the "minor version is ambiguous"
  \<^verbatim>\<open>BadParameter\<close>, whose message suggests the release tag \<^verbatim>\<open>value.1\<close> and the release branch
  \<^verbatim>\<open>value.x\<close>; no value is returned.
\<close>

theorem validate_version_minor_ambiguous:
  assumes "value \<notin> set ignore" and "length (split_sep CHR ''.'' value) = 2"
  shows "validate_version value ignore = Inl (AmbiguousMinor value (value @ ''.1'') (value @ ''.x''))
         \<and> (\<forall>r. validate_version value ignore \<noteq> Inr r)"
  using assms by (simp add: validate_version_def)

theorem validate_version_minor_ambiguous_witness:
  "''7.16'' \<notin> set [''origin/master''] \<and> length (split_sep CHR ''.'' ''7.16'') = 2
   \<and> validate_version ''7.16'' [''origin/master'']
       = Inl (AmbiguousMinor ''7.16'' ''7.16.1'' ''7.16.x'')"
  using validate_version_minor_ambiguous [of "''7.16''" "[''origin/master'']"] by simp

text \<open>
  Claim C5. Normalization returns well-formed inputs unchanged: a string \<^verbatim>\<open>M.m.x\<close> for which
  \<^verbatim>\<open>M.m.0\<close> parses as a semantic version is returned as it is, and so is every string
  that parses as a full semantic version (\<^verbatim>\<open>major.minor.patch\<close> with an optional
  prerelease). The parser is the one modelled from the spec above.
\<close>

theorem validate_version_round_trip:
  "(parse_version_info (M @ ''.'' @ m @ ''.0'') \<noteq> None \<longrightarrow>
      validate_version (M @ ''.'' @ m @ ''.x'') ignore = Inr (M @ ''.'' @ m @ ''.x''))
   \<and> (parse_version_info value \<noteq> None \<longrightarrow> validate_version value ignore = Inr value)"
  using validate_version_branch validate_version_full by blast

lemma parse_7_17_0: "parse_version_info ''7.17.0'' \<noteq> None"
  by code_simp

lemma parse_7_17_0_rc_2: "parse_version_info ''7.17.0-rc.2'' \<noteq> None"
  by code_simp

theorem validate_version_round_trip_witness:
  "parse_version_info ''7.17.0'' \<noteq> None
   \<and> validate_version ''7.17.x'' [''origin/master''] = Inr ''7.17.x''
   \<and> parse_version_info ''7.17.0-rc.2'' \<noteq> None
   \<and> validate_version ''7.17.0-rc.2'' [''origin/master''] = Inr ''7.17.0-rc.2''"
  using validate_version_round_trip [of "''7''" "''17''" "[''origin/master'']" "''7.17.0-rc.2''"]
    parse_7_17_0 parse_7_17_0_rc_2 by simp

section \<open>Properties of the change enumerator\<close>

lemma linebreak_is_space: "is_linebreak c \<Longrightarrow> py_isspace c"
  by (auto simp: is_linebreak_def py_isspace_def)

lemma space_is_space: "py_isspace CHR '' ''"
  by (simp add: py_isspace_def)

lemma newline_is_linebreak: "is_linebreak (CHR 0x0A)"
  by (simp add: is_linebreak_def)

lemma splitlines_newline: "splitlines (CHR 0x0A # rest) = [] # splitlines rest"
  by (cases rest) (simp_all add: newline_is_linebreak)

lemma splitlines_line_then:
  "\<forall>c \<in> set l. \<not> is_linebreak c \<Longrightarrow> splitlines (l @ CHR 0x0A # rest) = l # splitlines rest"
proof (induction l)
  case Nil
  show ?case using splitlines_newline by simp
next
  case (Cons c cs)
  then show ?case by simp
qed

lemma splitlines_line:
  "l \<noteq> [] \<Longrightarrow> \<forall>c \<in> set l. \<not> is_linebreak c \<Longrightarrow> splitlines l = [l]"
proof (induction l)
  case Nil
  then show ?case by simp
next
  case (Cons c cs)
  then show ?case by (cases "cs = []") auto
qed

lemma splitlines_join:
  "\<forall>l \<in> set ls. l \<noteq> [] \<and> (\<forall>c \<in> set l. \<not> is_linebreak c) \<Longrightarrow>
   splitlines (join_sep [CHR 0x0A] ls) = ls"
proof (induction "[CHR 0x0A]" ls rule: join_sep.induct)
  case 1
  show ?case by simp
next
  case (2 p)
  then show ?case by (simp add: splitlines_line)
next
  case (3 p q ps)
  then have "splitlines (join_sep [CHR 0x0A] (q # ps)) = q # ps" by simp
  moreover have "\<forall>c \<in> set p. \<not> is_linebreak c" using 3(2) by simp
  ultimately show ?case using splitlines_line_then[of p "join_sep [CHR 0x0A] (q # ps)"] by simp
qed

lemma split_ws1_log_line:
  assumes h: "h \<noteq> []" "\<forall>c \<in> set h. \<not> py_isspace c"
    and s: "s \<noteq> []" "\<not> py_isspace (hd s)"
  shows "split_ws1 (h @ '' '' @ s) = [h, s]"
proof -
  obtain c cs where hc: "h = c # cs" using h(1) by (cases h) auto
  obtain d ds where sd: "s = d # ds" using s(1) by (cases s) auto
  have d1: "dropWhile py_isspace (h @ '' '' @ s) = h @ '' '' @ s"
    using h(2) by (simp add: hc)
  have t: "takeWhile (\<lambda>c. \<not> py_isspace c) (h @ '' '' @ s) = h"
    using h(2) space_is_space by (simp add: takeWhile_append2)
  have d2: "dropWhile (\<lambda>c. \<not> py_isspace c) (h @ '' '' @ s) = '' '' @ s"
    using h(2) space_is_space by (simp add: dropWhile_append2)
  have d3: "dropWhile py_isspace ('' '' @ s) = s"
    using s(2) space_is_space by (simp add: sd)
  show ?thesis
    unfolding split_ws1_def Let_def d1 t d2 d3 using hc sd by simp
qed

lemma split_ws1_log_line_cons:
  assumes "h \<noteq> []" "\<forall>c \<in> set h. \<not> py_isspace c" "s \<noteq> []" "\<not> py_isspace (hd s)"
  shows "split_ws1 (h @ CHR '' '' # s) = [h, s]"
  using split_ws1_log_line[OF assms] by simp

lemma log_line_no_linebreak:
  assumes "\<forall>c \<in> set h. \<not> py_isspace c" "\<forall>c \<in> set s. \<not> is_linebreak c"
  shows "\<forall>c \<in> set (h @ '' '' @ s). \<not> is_linebreak c"
proof -
  have "\<not> is_linebreak CHR '' ''" by (simp add: is_linebreak_def)
  then show ?thesis using assms linebreak_is_space by auto
qed

lemma diff_data_log:
  assumes "list_all well_formed_commit commits"
  shows "diff_data (git_log_output commits) = rev (map (\<lambda>(h, s). [h, s]) commits)"
proof -
  let ?line = "\<lambda>(h, s). h @ '' '' @ s"
  have wf: "\<forall>l \<in> set (map ?line commits). l \<noteq> [] \<and> (\<forall>c \<in> set l. \<not> is_linebreak c)"
  proof
    fix l assume "l \<in> set (map ?line commits)"
    then obtain h s where hs: "(h, s) \<in> set commits" "l = h @ '' '' @ s" by auto
    then have "well_formed_commit (h, s)" using assms by (auto simp: list_all_iff)
    then show "l \<noteq> [] \<and> (\<forall>c \<in> set l. \<not> is_linebreak c)"
      using log_line_no_linebreak[of h s] hs(2)
      by (simp add: well_formed_commit_def list_all_iff)
  qed
  have "splitlines (git_log_output commits) = map ?line commits"
    unfolding git_log_output_def by (rule splitlines_join[OF wf])
  moreover have "map split_ws1 (map ?line commits) = map (\<lambda>(h, s). [h, s]) commits"
    using assms
    by (induction commits) (auto simp: well_formed_commit_def list_all_iff split_ws1_log_line_cons)
  ultimately show ?thesis by (simp add: diff_data_def rev_map)
qed

lemma example_commits_well_formed:
  "list_all well_formed_commit [(''h2'', ''Fixes #10''), (''h1'', ''Add a check'')]"
  by code_simp

section \<open>Properties of the dispatcher and the review loop\<close>

lemma fst_emit[simp]: "fst (emit evs r) = evs @ fst r"
  by (simp add: emit_def)

lemma snd_emit[simp]: "snd (emit evs r) = snd r"
  by (simp add: emit_def)

lemma range3: "[0..<3] = [0, 1, 2]"
  by (simp add: upt_rec)

lemma attempt_loop_card_events:
  "\<forall>ev \<in> set (fst (attempt_loop client n team t b attempts)). card_event ev"
  by (induction attempts arbitrary: n) (auto simp: Let_def)

lemma create_trello_card_card_events:
  "\<forall>ev \<in> set (fst (create_trello_card client n teams t u b dry)). card_event ev"
proof (induction teams arbitrary: n)
  case Nil show ?case by simp
next
  case (Cons team teams)
  show ?case using Cons attempt_loop_card_events by (auto simp: Let_def)
qed

lemma card_event_prompt_event: "card_event ev \<Longrightarrow> prompt_event ev"
  by (cases ev rule: card_event.cases) (auto elim: card_message.elims)

lemma prompt_head_events: "\<forall>ev \<in> set (prompt_head m i t u a ls ms). prompt_event ev"
  by (auto simp: prompt_head_def)

lemma prompt_display_events: "\<forall>ev \<in> set (prompt_display m i pr ce). prompt_event ev"
  using prompt_head_events by (auto simp: prompt_display_def split: option.splits)

lemma prompt_loop_events:
  "\<forall>ev \<in> set (fst (prompt_loop e m i pr ce st)). prompt_event ev"
proof (induction e m i pr ce st rule: prompt_loop.induct)
  case (1 e m i pr ce st)
  show ?case
  proof (cases "read_choice (keys st)")
    case None
    then show ?thesis using prompt_display_events by (subst prompt_loop.simps) simp
  next
    case (Some a)
    obtain key ks where a: "a = (key, ks)" by (cases a)
    define choice where "choice = (if key = [] then default_option m else key)"
    show ?thesis
    proof (cases "map_of (options m) choice")
      case None
      have "\<forall>ev \<in> set (fst (prompt_loop e m i pr (Some choice) (st\<lparr>keys := ks\<rparr>))). prompt_event ev"
        using 1[OF Some a[symmetric] choice_def None] .
      then show ?thesis using Some a None prompt_display_events
        by (subst prompt_loop.simps) (auto simp: choice_def[symmetric] Let_def)
    next
      case (Some v)
      have "\<forall>ev \<in> set (fst (create_trello_card (create_card e) (trello_calls st) [v]
                            (pr_title pr) (pr_url pr) (Some (pr_body pr)) (dry_run e))). prompt_event ev"
        using create_trello_card_card_events card_event_prompt_event by blast
      then show ?thesis using \<open>read_choice (keys st) = Some a\<close> a Some prompt_display_events
        by (subst prompt_loop.simps) (auto simp: choice_def[symmetric] Let_def)
    qed
  qed
qed

lemma split_once_changelog:
  assumes "prefix CHANGELOG_LABEL_PREFIX l"
  shows "split_once CHR ''/'' l = [''changelog'', drop 10 l]"
proof -
  from assms obtain t where "l = ''changelog/'' @ t"
    by (auto simp: prefix_def CHANGELOG_LABEL_PREFIX_def)
  then show ?thesis by (simp add: split_once_def)
qed

lemma changelog_type_none:
  assumes "prefix CHANGELOG_LABEL_PREFIX l"
  shows "(drop 10 l = CHANGELOG_TYPE_NONE) = (l = CHANGELOG_LABEL_PREFIX @ CHANGELOG_TYPE_NONE)"
proof -
  from assms obtain t where "l = ''changelog/'' @ t"
    by (auto simp: prefix_def CHANGELOG_LABEL_PREFIX_def)
  then show ?thesis by (simp add: CHANGELOG_LABEL_PREFIX_def)
qed

lemma label_flags_eq:
  "label_flags ls d n =
     Inr (d \<or> (\<exists>l \<in> set ls. prefix ''documentation'' l),
          n \<and> (\<forall>l \<in> set ls. prefix CHANGELOG_LABEL_PREFIX l \<longrightarrow>
                 l = CHANGELOG_LABEL_PREFIX @ CHANGELOG_TYPE_NONE))"
proof (induction ls arbitrary: d n)
  case Nil show ?case by simp
next
  case (Cons l ls)
  show ?case
  proof (cases "prefix CHANGELOG_LABEL_PREFIX l")
    case True
    show ?thesis
      using True Cons changelog_type_none[OF True]
      by (auto simp: split_once_changelog[OF True] Let_def)
  next
    case False
    then show ?thesis using Cons by (auto simp: Let_def)
  qed
qed

lemma process_pr_skip_documentation:
  assumes "\<exists>l \<in> set (labels data). prefix ''documentation'' l"
    and "\<forall>l \<in> set (labels data). prefix CHANGELOG_LABEL_PREFIX l \<longrightarrow>
           l = CHANGELOG_LABEL_PREFIX @ CHANGELOG_TYPE_NONE"
  shows "process_pr e m st i cid subj data = ([Echo Info (SkippingDocumentation cid)], Next st)"
  using assms by (simp add: process_pr_def label_flags_eq)

lemma process_pr_events:
  "\<forall>ev \<in> set (fst (process_pr e m st i cid subj data)).
     prompt_event ev \<or> ev = Echo Info (SkippingDocumentation cid)
     \<or> ev = Echo Info (MilestoneMismatch (format_opt (milestone e)) cid)"
  unfolding process_pr_def label_flags_eq Let_def
  using prompt_loop_events create_trello_card_card_events card_event_prompt_event
    prompt_head_events
  by (auto split: if_splits sum.splits option.splits)

lemma process_pr_changelog_not_skipped:
  assumes "\<exists>l \<in> set (labels data). prefix CHANGELOG_LABEL_PREFIX l \<and>
             l \<noteq> CHANGELOG_LABEL_PREFIX @ CHANGELOG_TYPE_NONE"
  shows "Echo Info (SkippingDocumentation c) \<notin> set (fst (process_pr e m st i cid subj data))"
proof -
  have "\<forall>ev \<in> set (fst (process_pr e m st i cid subj data)).
     prompt_event ev \<or> ev = Echo Info (MilestoneMismatch (format_opt (milestone e)) cid)"
    unfolding process_pr_def label_flags_eq Let_def
    using assms prompt_loop_events create_trello_card_card_events card_event_prompt_event
      prompt_head_events
    by (auto split: if_splits sum.splits option.splits)
  then show ?thesis by fastforce
qed

lemma map_filter_nonempty:
  "(List.map_filter f xs \<noteq> []) = (\<exists>x \<in> set xs. f x \<noteq> None)"
  by (induction xs) (auto simp: List.map_filter_simps split: option.splits)


lemma prompt_loop_key:
  assumes "key \<noteq> [CHR 0x00]"
  shows "prompt_loop e m i pr ce (st\<lparr>keys := key # ks\<rparr>) =
     (let choice = (if key = [] then default_option m else key) in
           case map_of (options m) choice of
             None \<Rightarrow>
               emit (prompt_display m i pr ce @ [Echo Info (Text choice)])
                 (prompt_loop e m i pr (Some choice) (st\<lparr>keys := ks\<rparr>))
           | Some v \<Rightarrow>
               if v = ''Skip'' then
                 (prompt_display m i pr ce
                    @ [Echo Info (Text v), Echo Info (Skipped (commit_id pr))],
                  Next (st\<lparr>keys := ks\<rparr>))
               else if v = ''Quit'' then
                 (prompt_display m i pr ce
                    @ [Echo Info (Text v), Echo Warning (ExitedAt (commit_id pr))],
                  Stop Quit)
               else
                 (let r = create_trello_card (create_card e) (trello_calls st) [v]
                            (pr_title pr) (pr_url pr) (Some (pr_body pr)) (dry_run e)
                  in (prompt_display m i pr ce @ [Echo Info (Text v)] @ fst r,
                      Next (st\<lparr>keys := ks, trello_calls := snd r\<rparr>))))"
  using assms by (subst prompt_loop.simps) (simp add: Let_def split: option.split)

lemma menu_for_default:
  assumes "menu_for r n = Inr m"
  shows "default_option m = ''1''" "get_next (options m) = Some (default_option m)"
    "map_of (options m) (default_option m) = Some (default_value m)"
  using assms
  by (auto simp: menu_for_def get_next_def integrations_core_options_def
      datadog_agent_options_def split: if_splits)

lemma menu_for_core: "menu_for ''integrations-core'' 2 = Inr example_menu"
  by (simp add: menu_for_def get_next_def integrations_core_options_def example_menu_def)

lemma prompt_loop_step:
  "case snd (prompt_loop e m i pr ce st) of
     Next st' \<Rightarrow> commit_ids st' = commit_ids st \<and> github_calls st' = github_calls st
   | Stop oc \<Rightarrow> oc = Quit \<or> oc = Blocked"
proof (induction e m i pr ce st rule: prompt_loop.induct)
  case (1 e m i pr ce st)
  show ?case
  proof (cases "read_choice (keys st)")
    case None
    then show ?thesis by (subst prompt_loop.simps) simp
  next
    case (Some a)
    obtain key ks where a: "a = (key, ks)" by (cases a)
    define choice where "choice = (if key = [] then default_option m else key)"
    show ?thesis
    proof (cases "map_of (options m) choice")
      case None
      have "case snd (prompt_loop e m i pr (Some choice) (st\<lparr>keys := ks\<rparr>)) of
              Next st' \<Rightarrow> commit_ids st' = commit_ids (st\<lparr>keys := ks\<rparr>)
                  \<and> github_calls st' = github_calls (st\<lparr>keys := ks\<rparr>)
            | Stop oc \<Rightarrow> oc = Quit \<or> oc = Blocked"
        using 1[OF Some a[symmetric] choice_def None] .
      then show ?thesis using Some a None
        by (subst prompt_loop.simps) (auto simp: choice_def[symmetric] Let_def split: step.splits)
    next
      case (Some v)
      then show ?thesis using \<open>read_choice (keys st) = Some a\<close> a
        by (subst prompt_loop.simps) (auto simp: choice_def[symmetric] Let_def)
    qed
  qed
qed

lemma author_of_Inl: "author_of u = Inl x \<Longrightarrow> x = AttributeError \<and> u = Null"
  by (auto simp: author_of_def split: json_field.splits)

lemma process_pr_step:
  "case snd (process_pr e m st i cid subj data) of
     Next st' \<Rightarrow> commit_ids st' = commit_ids st \<and> github_calls st' = github_calls st
   | Stop oc \<Rightarrow> oc = Quit \<or> oc = Blocked \<or> oc = Raised AttributeError"
proof -
  have pl: "case snd (prompt_loop e m i pr None st) of
     Next st' \<Rightarrow> commit_ids st' = commit_ids st \<and> github_calls st' = github_calls st
   | Stop oc \<Rightarrow> oc = Quit \<or> oc = Blocked \<or> oc = Raised AttributeError" for pr
    using prompt_loop_step[where e=e and m=m and i=i and pr=pr and ce=None and st=st]
    by (auto split: step.splits)
  show ?thesis
    unfolding process_pr_def label_flags_eq Let_def
    using pl by (auto dest: author_of_Inl split: if_splits sum.splits option.splits)
qed

lemma process_pr_prompt_events:
  "ev \<in> set (fst (process_pr e m st i cid subj data)) \<Longrightarrow>
     prompt_event ev \<or> ev = Echo Info (SkippingDocumentation cid)
     \<or> ev = Echo Info (MilestoneMismatch (format_opt (milestone e)) cid)"
  using process_pr_events by blast

lemma process_pr_no_seen_add: "SeenAdd c \<notin> set (fst (process_pr e m st i cid subj data))"
  using process_pr_prompt_events[of "SeenAdd c"] by auto

lemma process_pr_no_already_seen:
  "Echo Info (AlreadySeen c) \<notin> set (fst (process_pr e m st i cid subj data))"
  using process_pr_prompt_events[of "Echo Info (AlreadySeen c)"] by auto

lemma resolve_events:
  "ev \<in> set (fst (resolve e n h s)) \<Longrightarrow>
     (\<exists>c. ev = GetPr c) \<or> (\<exists>c r. ev = GetPrFromHash c r)
     \<or> (\<exists>c. ev = Echo Failure (GithubRateLimited c)) \<or> (\<exists>c. ev = Echo Info (NotAPullRequest c))"
  by (auto simp: resolve_def resolve_by_number_def resolve_by_hash_def first_item_def Let_def
      split: if_splits sum.splits json_field.splits list.splits)

lemma resolve_no_seen_add: "SeenAdd c \<notin> set (fst (resolve e n h s))"
  using resolve_events[of "SeenAdd c"] by auto

lemma resolve_no_already_seen: "Echo Info (AlreadySeen c) \<notin> set (fst (resolve e n h s))"
  using resolve_events[of "Echo Info (AlreadySeen c)"] by auto

lemma process_pr_next:
  assumes "snd (process_pr e m st i cid subj data) = Next st'"
  shows "commit_ids st' = commit_ids st" "github_calls st' = github_calls st"
  using process_pr_step[where e=e and m=m and st=st and i=i and cid=cid and subj=subj and data=data]
    assms by simp_all

lemma process_pr_stop:
  assumes "snd (process_pr e m st i cid subj data) = Stop oc"
  shows "oc = Quit \<or> oc = Blocked \<or> oc = Raised AttributeError"
  using process_pr_step[where e=e and m=m and st=st and i=i and cid=cid and subj=subj and data=data]
    assms by simp

lemma count_list_zero: "x \<notin> set xs \<Longrightarrow> count_list xs x = 0"
  by (induction xs) auto

lemma loop_body_unfold:
  "loop_body e m st i [h, s] =
     (let r = resolve e (github_calls st) h s;
          st1 = st\<lparr>github_calls := Suc (github_calls st)\<rparr>
      in case snd r of
           Halt oc \<Rightarrow> (fst r, Stop oc)
         | Skip \<Rightarrow> (fst r, Next st1)
         | Resolved cid data \<Rightarrow>
             if cid \<noteq> [] \<and> cid \<in> commit_ids st then
               (fst r @ [Echo Info (AlreadySeen cid)], Next st1)
             else
               emit (fst r @ [SeenAdd cid])
                 (process_pr e m (st1\<lparr>commit_ids := insert cid (commit_ids st)\<rparr>) i cid s data))"
  by (simp add: loop_body_def)

lemma loop_body_malformed:
  "(\<nexists>h s. change = [h, s]) \<Longrightarrow> loop_body e m st i change = ([], Stop (Raised ValueError))"
  by (auto simp: loop_body_def split: list.splits)

lemma main_loop_Cons:
  "main_loop e m st ((i, change) # rest) =
     (case snd (loop_body e m st i change) of
        Next st' \<Rightarrow> emit (fst (loop_body e m st i change)) (main_loop e m st' rest)
      | Stop oc \<Rightarrow> (fst (loop_body e m st i change), oc))"
  by (cases "loop_body e m st i change") (simp split: step.splits)

lemma loop_body_seen_add:
  assumes c: "c \<noteq> []"
  shows "count_list (fst (loop_body e m st i change)) (SeenAdd c)
           \<le> (if c \<in> commit_ids st then 0 else 1)
         \<and> (\<forall>st'. snd (loop_body e m st i change) = Next st' \<longrightarrow>
               commit_ids st \<subseteq> commit_ids st'
               \<and> (count_list (fst (loop_body e m st i change)) (SeenAdd c) = 1 \<longrightarrow>
                    c \<in> commit_ids st'))"
proof (cases "\<exists>h s. change = [h, s]")
  case False
  then show ?thesis by (simp add: loop_body_malformed)
next
  case True
  then obtain h s where change: "change = [h, s]" by blast
  define r where "r = resolve e (github_calls st) h s"
  have r0: "count_list (fst r) (SeenAdd c) = 0"
    unfolding r_def by (rule count_list_zero[OF resolve_no_seen_add])
  show ?thesis
  proof (cases "snd r")
    case (Halt oc)
    then show ?thesis using r0 by (simp add: change loop_body_unfold r_def[symmetric])
  next
    case Skip
    then show ?thesis using r0 by (simp add: change loop_body_unfold r_def[symmetric])
  next
    case (Resolved cid data)
    show ?thesis
    proof (cases "cid \<noteq> [] \<and> cid \<in> commit_ids st")
      case True
      then show ?thesis using r0 Resolved
        by (simp add: change loop_body_unfold r_def[symmetric])
    next
      case False
      define st2 where "st2 = st\<lparr>github_calls := Suc (github_calls st),
                                 commit_ids := insert cid (commit_ids st)\<rparr>"
      define p where "p = process_pr e m st2 i cid s data"
      have lb: "loop_body e m st i change = emit (fst r @ [SeenAdd cid]) p"
        using False Resolved
        by (auto simp add: change loop_body_unfold r_def[symmetric] p_def st2_def Let_def)
      have p0: "count_list (fst p) (SeenAdd c) = 0"
        unfolding p_def by (rule count_list_zero[OF process_pr_no_seen_add])
      have cnt: "count_list (fst (loop_body e m st i change)) (SeenAdd c) = (if cid = c then 1 else 0)"
        using r0 p0 by (simp add: lb)
      have nxt: "commit_ids st' = insert cid (commit_ids st)" if "snd p = Next st'" for st'
      proof -
        have "commit_ids st' = commit_ids st2"
          using that unfolding p_def by (rule process_pr_next(1))
        then show ?thesis by (simp add: st2_def)
      qed
      have snd_lb: "snd (loop_body e m st i change) = snd p" by (simp add: lb)
      have bound: "count_list (fst (loop_body e m st i change)) (SeenAdd c)
                     \<le> (if c \<in> commit_ids st then 0 else 1)"
        using cnt False c by auto
      have after: "commit_ids st \<subseteq> commit_ids st'
                   \<and> (count_list (fst (loop_body e m st i change)) (SeenAdd c) = 1 \<longrightarrow>
                        c \<in> commit_ids st')"
        if "snd (loop_body e m st i change) = Next st'" for st'
      proof -
        have "commit_ids st' = insert cid (commit_ids st)" using that nxt snd_lb by simp
        then show ?thesis using cnt by (auto split: if_splits)
      qed
      show ?thesis using bound after by blast
    qed
  qed
qed

lemma main_loop_seen_add:
  assumes c: "c \<noteq> []"
  shows "count_list (fst (main_loop e m st xs)) (SeenAdd c) \<le> (if c \<in> commit_ids st then 0 else 1)"
proof (induction xs arbitrary: st)
  case Nil
  show ?case by simp
next
  case (Cons x xs)
  obtain i change where x: "x = (i, change)" by (cases x)
  define b where "b = loop_body e m st i change"
  note lb = loop_body_seen_add[OF c, of e m st i change, folded b_def]
  show ?case
  proof (cases "snd b")
    case (Stop oc)
    then have "main_loop e m st (x # xs) = (fst b, oc)"
      by (simp add: x main_loop_Cons b_def[symmetric] del: main_loop.simps)
    then show ?thesis using lb by simp
  next
    case (Next st')
    then have ml: "main_loop e m st (x # xs) = emit (fst b) (main_loop e m st' xs)"
      by (simp add: x main_loop_Cons b_def[symmetric] del: main_loop.simps)
    have sub: "commit_ids st \<subseteq> commit_ids st'"
      and one: "count_list (fst b) (SeenAdd c) = 1 \<Longrightarrow> c \<in> commit_ids st'"
      using lb Next by auto
    have ih: "count_list (fst (main_loop e m st' xs)) (SeenAdd c)
                \<le> (if c \<in> commit_ids st' then 0 else 1)"
      by (rule Cons.IH)
    show ?thesis
    proof (cases "c \<in> commit_ids st")
      case True
      then show ?thesis using lb sub ih by (auto simp: ml)
    next
      case notin: False
      show ?thesis
      proof (cases "count_list (fst b) (SeenAdd c) = 1")
        case True
        then show ?thesis using one ih notin by (auto simp: ml)
      next
        case False
        then have "count_list (fst b) (SeenAdd c) = 0" using lb by (auto split: if_splits)
        then show ?thesis using ih notin by (auto simp: ml split: if_splits)
      qed
    qed
  qed
qed

lemma testable_seen_add_once:
  assumes "c \<noteq> []"
  shows "count_list (fst (testable e stdout ks)) (SeenAdd c) \<le> 1"
proof -
  have "count_list (fst (main_loop e m (initial_state ks) xs)) (SeenAdd c) \<le> 1" for m xs
    using main_loop_seen_add[OF assms, of e m "initial_state ks" xs]
    by (simp add: initial_state_def)
  then show ?thesis
    by (auto simp: testable_def Let_def split: sum.splits)
qed

lemma resolve_number_ok:
  assumes "parse_pr_number e s = Some c" "c \<noteq> []" "\<not> raise_for_status (get_pr e n c)"
  shows "resolve e n h s = ([GetPr c], Resolved c (json (get_pr e n c)))"
  using assms
  by (auto simp: resolve_def resolve_by_number_def truthy_def format_opt_def Let_def
      raise_for_status_def)

lemma menu_for_total: "\<exists>m. menu_for r n = Inr m"
  by (simp add: menu_for_def get_next_def integrations_core_options_def
      datadog_agent_options_def)

lemma enumerate_two: "zip [1..<Suc (length [a, b])] [a, b] = [(1, a), (2, b)]"
  by (simp add: upt_rec)

lemma example_diff: "diff_data example_stdout = [[''h1'', ''Fixes #10''], [''h2'', ''Fixes #10'']]"
  by code_simp

lemma example_resolve:
  "resolve example_env n h ''Fixes #10'' = ([GetPr ''10''], Resolved ''10'' example_payload)"
  by (simp add: resolve_def resolve_by_number_def example_env_def truthy_def format_opt_def
      raise_for_status_def example_payload_def)

lemma loop_body_no_empty_already_seen:
  "Echo Info (AlreadySeen []) \<notin> set (fst (loop_body e m st i change))"
proof (cases "\<exists>h s. change = [h, s]")
  case False
  then show ?thesis by (simp add: loop_body_malformed)
next
  case True
  then obtain h s where change: "change = [h, s]" by blast
  define r where "r = resolve e (github_calls st) h s"
  have r0: "Echo Info (AlreadySeen []) \<notin> set (fst r)"
    unfolding r_def by (rule resolve_no_already_seen)
  show ?thesis
  proof (cases "snd r")
    case (Halt oc)
    then show ?thesis using r0 by (simp add: change loop_body_unfold r_def[symmetric])
  next
    case Skip
    then show ?thesis using r0 by (simp add: change loop_body_unfold r_def[symmetric])
  next
    case (Resolved cid data)
    then show ?thesis using r0 process_pr_no_already_seen
      by (auto simp add: change loop_body_unfold r_def[symmetric] Let_def)
  qed
qed

lemma main_loop_no_empty_already_seen:
  "Echo Info (AlreadySeen []) \<notin> set (fst (main_loop e m st xs))"
proof (induction xs arbitrary: st)
  case Nil
  show ?case by simp
next
  case (Cons x xs)
  obtain i change where x: "x = (i, change)" by (cases x)
  show ?case
    unfolding x main_loop_Cons
    using loop_body_no_empty_already_seen[of e m st i change] Cons
    by (auto split: step.splits)
qed

lemma loop_body_empty_id:
  assumes "snd (resolve e (github_calls st) h s) = Resolved [] data"
  shows "loop_body e m st i [h, s]
           = emit (fst (resolve e (github_calls st) h s) @ [SeenAdd []])
               (process_pr e m
                  (st\<lparr>github_calls := Suc (github_calls st),
                      commit_ids := insert [] (commit_ids st)\<rparr>) i [] s data)"
  using assms by (simp add: loop_body_unfold Let_def)

lemma loop_body_duplicate:
  assumes "cid \<noteq> []" "cid \<in> commit_ids st"
    "snd (resolve e (github_calls st) h s) = Resolved cid data"
  shows "loop_body e m st i [h, s]
           = (fst (resolve e (github_calls st) h s) @ [Echo Info (AlreadySeen cid)],
              Next (st\<lparr>github_calls := Suc (github_calls st)\<rparr>))"
  using assms by (simp add: loop_body_unfold Let_def)

lemma example_resolve_by_hash:
  "resolve example_env n h ''second commit''
     = ([GetPrFromHash h ''integrations-core''], Resolved [] empty_payload)"
  by (simp add: resolve_def resolve_by_hash_def first_item_def example_env_def truthy_def
      raise_for_status_def empty_payload_def get_default_def format_opt_def)


lemma attempt_loop_first:
  "attempts \<noteq> [] \<Longrightarrow>
   fst (attempt_loop client n team t b attempts) \<noteq> []
   \<and> hd (fst (attempt_loop client n team t b attempts)) = CreateCard team t b"
  by (cases attempts) (auto simp: Let_def)




lemma create_trello_card_first:
  assumes "teams \<noteq> []"
  shows "fst (create_trello_card client n teams t u b dry) \<noteq> []
         \<and> handling (hd (fst (create_trello_card client n teams t u b dry)))"
proof -
  obtain team rest where teams: "teams = team # rest" using assms by (cases teams) auto
  show ?thesis
  proof (cases dry)
    case True
    then show ?thesis by (simp add: teams Let_def)
  next
    case False
    have "fst (attempt_loop client n team t
                 (''Pull request: '' @ format_opt u @ [CHR 0x0A, CHR 0x0A] @ format_opt b) [0..<3]) \<noteq> []
          \<and> hd (fst (attempt_loop client n team t
                 (''Pull request: '' @ format_opt u @ [CHR 0x0A, CHR 0x0A] @ format_opt b) [0..<3]))
              = CreateCard team t (''Pull request: '' @ format_opt u @ [CHR 0x0A, CHR 0x0A] @ format_opt b)"
      by (rule attempt_loop_first) (simp add: range3)
    then show ?thesis using False by (simp add: teams Let_def)
  qed
qed

lemma prompt_head_first:
  "prompt_head m i t u a ls ms \<noteq> [] \<and> handling (hd (prompt_head m i t u a ls ms))"
  by (simp add: prompt_head_def)

lemma prompt_display_first:
  "prompt_display m i pr ce \<noteq> [] \<and> handling (hd (prompt_display m i pr ce))"
  using prompt_head_first[of m i "pr_title pr" "pr_url pr" "pr_author pr" "pr_labels pr" "pr_milestone pr"]
  by (simp add: prompt_display_def)

lemma prompt_loop_first:
  "fst (prompt_loop e m i pr ce st) \<noteq> [] \<and> handling (hd (fst (prompt_loop e m i pr ce st)))"
  using prompt_display_first[of m i pr ce]
  by (subst prompt_loop.simps, subst (2) prompt_loop.simps)
     (auto simp: Let_def split: option.splits)

lemma process_pr_first:
  "(fst (process_pr e m st i cid subj data) \<noteq> [] \<longrightarrow>
      handling (hd (fst (process_pr e m st i cid subj data))))
   \<and> (fst (process_pr e m st i cid subj data) = [] \<longrightarrow>
      user data = Null \<and> snd (process_pr e m st i cid subj data) = Stop (Raised AttributeError))"
  using prompt_loop_first prompt_head_first create_trello_card_first
  by (auto simp: process_pr_def label_flags_eq Let_def author_of_def
      split: json_field.splits option.splits)

lemma prompt_event_not_fetch: "prompt_event ev \<Longrightarrow> \<not> is_fetch ev"
  by (cases ev) auto

lemma process_pr_no_fetch: "filter is_fetch (fst (process_pr e m st i cid subj data)) = []"
proof -
  have "\<not> is_fetch ev" if "ev \<in> set (fst (process_pr e m st i cid subj data))" for ev
    using process_pr_prompt_events[OF that] prompt_event_not_fetch[of ev] by auto
  then show ?thesis by (auto simp: filter_empty_conv)
qed

lemma resolve_fetch:
  "fst (resolve e n h s) \<noteq> []
   \<and> hd (fst (resolve e n h s))
       = (if truthy (parse_pr_number e s) then GetPr (format_opt (parse_pr_number e s))
          else GetPrFromHash h (repo e))
   \<and> filter is_fetch (fst (resolve e n h s)) = [hd (fst (resolve e n h s))]"
  by (auto simp: resolve_def resolve_by_number_def resolve_by_hash_def Let_def split: sum.splits)

lemma resolve_halt: "snd (resolve e n h s) = Halt oc \<Longrightarrow> oc \<noteq> Completed"
  by (auto simp: resolve_def resolve_by_number_def resolve_by_hash_def first_item_def Let_def
      split: if_splits sum.splits json_field.splits list.splits)

lemma loop_body_fetch:
  "fst (loop_body e m st i [h, s]) \<noteq> []
   \<and> hd (fst (loop_body e m st i [h, s])) = hd (fst (resolve e (github_calls st) h s))
   \<and> filter is_fetch (fst (loop_body e m st i [h, s])) = [hd (fst (loop_body e m st i [h, s]))]"
  using resolve_fetch[of e "github_calls st" h s] process_pr_no_fetch
  by (cases "snd (resolve e (github_calls st) h s)")
     (simp_all add: loop_body_unfold Let_def)

lemma loop_body_not_completed: "snd (loop_body e m st i change) \<noteq> Stop Completed"
proof (cases "\<exists>h s. change = [h, s]")
  case False
  then show ?thesis by (simp add: loop_body_malformed)
next
  case True
  then obtain h s where change: "change = [h, s]" by blast
  show ?thesis
  proof (cases "snd (resolve e (github_calls st) h s)")
    case (Resolved cid data)
    show ?thesis
      using process_pr_stop[of e m _ i cid s data Completed]
      by (auto simp: change loop_body_unfold Let_def Resolved)
  next
    case Skip
    then show ?thesis by (simp add: change loop_body_unfold Let_def)
  next
    case (Halt oc)
    then show ?thesis using resolve_halt[OF Halt] by (simp add: change loop_body_unfold Let_def)
  qed
qed

lemma loop_body_fetch_count:
  "length (filter is_fetch (fst (loop_body e m st i change))) \<le> 1
   \<and> (snd (loop_body e m st i change) = Next st' \<longrightarrow>
        length (filter is_fetch (fst (loop_body e m st i change))) = 1)"
proof (cases "\<exists>h s. change = [h, s]")
  case False
  then show ?thesis by (simp add: loop_body_malformed)
next
  case True
  then obtain h s where change: "change = [h, s]" by blast
  show ?thesis using loop_body_fetch[of e m st i h s] by (simp add: change)
qed

lemma main_loop_fetch:
  "length (filter is_fetch (fst (main_loop e m st xs))) \<le> length xs
   \<and> (snd (main_loop e m st xs) = Completed \<longrightarrow>
        length (filter is_fetch (fst (main_loop e m st xs))) = length xs)"
proof (induction xs arbitrary: st)
  case Nil
  show ?case by simp
next
  case (Cons x xs)
  obtain i change where x: "x = (i, change)" by (cases x)
  show ?case
  proof (cases "snd (loop_body e m st i change)")
    case (Next st')
    show ?thesis
      using Cons[of st'] loop_body_fetch_count[of e m st i change st'] Next
      unfolding x main_loop_Cons by simp
  next
    case (Stop oc)
    have "oc \<noteq> Completed" using loop_body_not_completed[of e m st i change] Stop by auto
    then show ?thesis
      using loop_body_fetch_count[of e m st i change] Stop
      unfolding x main_loop_Cons by simp
  qed
qed

lemma testable_fetch:
  "length (filter is_fetch (fst (testable e stdout ks))) \<le> length (diff_data stdout)
   \<and> (snd (testable e stdout ks) = Completed \<longrightarrow>
        length (filter is_fetch (fst (testable e stdout ks))) = length (diff_data stdout))"
proof -
  have "length (zip [1..<Suc (length (diff_data stdout))] (diff_data stdout))
          = length (diff_data stdout)"
    by (simp del: upt_Suc)
  then show ?thesis
    using main_loop_fetch[of e _ "initial_state ks"
        "zip [1..<Suc (length (diff_data stdout))] (diff_data stdout)"]
    by (auto simp: testable_def Let_def split: sum.splits)
qed

lemma loop_body_process:
  assumes "snd (resolve e (github_calls st) h s) = Resolved cid data"
    and "\<not> (cid \<noteq> [] \<and> cid \<in> commit_ids st)"
  shows "loop_body e m st i [h, s]
           = emit (fst (resolve e (github_calls st) h s) @ [SeenAdd cid])
               (process_pr e m
                  (st\<lparr>github_calls := Suc (github_calls st),
                      commit_ids := insert cid (commit_ids st)\<rparr>) i cid s data)"
  using assms by (auto simp: loop_body_unfold Let_def)

lemma example_process:
  "process_pr example_env example_menu st i ''10'' ''Fixes #10'' example_payload
     = ([CreateCard ''Core'' (Some ''Fix the check'')
           (''Pull request: https://github.com/DataDog/integrations-core/pull/10''
              @ [CHR 0x0A, CHR 0x0A]),
         Echo Success (CreatedCard ''Core''),
         Echo Info (CardUrl (Some ''https://trello.com/c/1''))],
        Next (st\<lparr>trello_calls := Suc (trello_calls st)\<rparr>))"
  by (simp add: process_pr_def label_flags_eq example_payload_def example_env_def
      empty_payload_def truthy_def author_of_def get_default_def format_opt_def
      CHANGELOG_LABEL_PREFIX_def List.map_filter_simps range3 ok_card_def emit_def Let_def)




section \<open>Claims about the change enumerator\<close>

text \<open>
  Claim C9. The enumerator returns the tuples of the log's lines from the last line to the
  first. The log lists the commits newest first, one line \<^verbatim>\<open>hash subject\<close> each, so for
  well-formed commits the result is the list of their (hash, subject) pairs reversed, that
  is, from the oldest to the newest.
\<close>

theorem diff_data_oldest_first:
  "diff_data stdout = rev (map split_ws1 (splitlines stdout))
   \<and> (list_all well_formed_commit commits \<longrightarrow>
        diff_data (git_log_output commits) = rev (map (\<lambda>(h, s). [h, s]) commits))"
  using diff_data_log by (simp add: diff_data_def rev_map)

theorem diff_data_oldest_first_witness:
  "diff_data (git_log_output [(''h2'', ''Fixes #10''), (''h1'', ''Add a check'')])
     = [[''h1'', ''Add a check''], [''h2'', ''Fixes #10'']]"
  using diff_data_oldest_first [where commits = "[(''h2'', ''Fixes #10''), (''h1'', ''Add a check'')]"
      and stdout = "[]"] example_commits_well_formed
  by simp

section \<open>Claims about the dispatcher and the review loop\<close>

text \<open>
  Claim C1. When every one of the three attempts for a team fails, a failure should be
  reported once the attempts are exhausted. The run below has a client that answers every
  \<^verbatim>\<open>create_card\<close> call with a rate-limited response: the third attempt still announces a
  retry and sleeps, the loop ends, and no failure is ever echoed. (Only the branch for
  generic errors reports a failure on the last attempt.)
\<close>

theorem create_trello_card_rate_limited_exhausted:
  "create_trello_card (\<lambda>n team t b. rate_limited_card) 0 [''Core''] (Some ''T'') (Some ''U'')
       (Some ''B'') False
     = ([CreateCard ''Core'' (Some ''T'') (''Pull request: U'' @ [CHR 0x0A, CHR 0x0A] @ ''B''),
         Echo Warning (RateLimitRetry 1 3 10), Sleep 10,
         CreateCard ''Core'' (Some ''T'') (''Pull request: U'' @ [CHR 0x0A, CHR 0x0A] @ ''B''),
         Echo Warning (RateLimitRetry 2 3 10), Sleep 10,
         CreateCard ''Core'' (Some ''T'') (''Pull request: U'' @ [CHR 0x0A, CHR 0x0A] @ ''B''),
         Echo Warning (RateLimitRetry 3 3 10), Sleep 10], 3)
   \<and> (\<forall>msg. Echo Failure msg \<notin> set (fst (create_trello_card (\<lambda>n team t b. rate_limited_card) 0
                                          [''Core''] (Some ''T'') (Some ''U'') (Some ''B'') False)))"
  by (auto simp add: range3 rate_limited_card_def emit_def creation_attempts_def Let_def
      format_opt_def numeral_2_eq_2 numeral_3_eq_3)

text \<open>
  Claim C3. A diff that yields the two changes \<open>(h1, s1)\<close> and \<open>(h2, s2)\<close>, both subjects
  naming the same pull request \<open>c\<close> (as \<^verbatim>\<open>Fixes #10\<close> names \<^verbatim>\<open>10\<close>), whose two lookups do not
  fail. The whole run is: the lookup of \<open>c\<close>, its entry into the set of seen ids, the
  events \<open>P\<close> of processing the record once, and then, when the run is not ended while the
  record is processed, the second lookup and the "Already seen" message, and nothing else.
  \<open>P\<close> begins with the event that filters the record (one of the two skip messages),
  dispatches it (a card is created, or announced in a dry run) or prompts for it (the
  heading of the prompt), and no such event of the run lies outside \<open>P\<close>. \<open>P\<close> is empty
  only when the payload's \<^verbatim>\<open>user\<close> is \<^verbatim>\<open>null\<close> and the run ends with the \<^verbatim>\<open>AttributeError\<close> of
  line 274. The run ends while the record is processed when the operator quits, when no
  key comes, or when a \<^verbatim>\<open>null\<close> field raises.
\<close>

theorem duplicate_pr_processed_once:
  assumes repo: "repo e = ''integrations-core'' \<or> repo e = ''datadog-agent''"
    and diff: "diff_data stdout = [[h1, s1], [h2, s2]]"
    and p1: "parse_pr_number e s1 = Some c" and p2: "parse_pr_number e s2 = Some c"
    and c: "c \<noteq> []"
    and ok1: "\<not> raise_for_status (get_pr e 0 c)" and ok2: "\<not> raise_for_status (get_pr e 1 c)"
  shows "case menu_for (repo e) 2 of
           Inl x \<Rightarrow> False
         | Inr m \<Rightarrow>
             (let P = fst (process_pr e m
                             ((initial_state ks)\<lparr>github_calls := 1, commit_ids := {c}\<rparr>)
                             1 c s1 (json (get_pr e 0 c)));
                  evs = fst (testable e stdout ks);
                  oc = snd (testable e stdout ks)
              in evs = [GetPr c, SeenAdd c] @ P
                         @ (if oc = Completed then [GetPr c, Echo Info (AlreadySeen c)] else [])
                 \<and> (P \<noteq> [] \<longrightarrow> handling (hd P))
                 \<and> (P = [] \<longrightarrow> user (json (get_pr e 0 c)) = Null \<and> oc = Raised AttributeError)
                 \<and> filter handling evs = filter handling P
                 \<and> count_list evs (SeenAdd c) = 1
                 \<and> (oc = Completed \<longrightarrow>
                      count_list evs (Echo Info (AlreadySeen c)) = 1
                      \<and> last evs = Echo Info (AlreadySeen c)))"
proof -
  obtain m where m: "menu_for (repo e) (length (diff_data stdout)) = Inr m"
    using menu_for_total by blast
  then have m2: "menu_for (repo e) 2 = Inr m" by (simp add: diff numeral_2_eq_2)
  define st0 where "st0 = initial_state ks"
  have "testable e stdout ks
          = main_loop e m st0 (zip [1..<Suc (length (diff_data stdout))] (diff_data stdout))"
    using repo unfolding testable_def Let_def m st0_def by auto
  then have t: "testable e stdout ks = main_loop e m st0 [(1, [h1, s1]), (2, [h2, s2])]"
    unfolding diff enumerate_two .
  define st1 where "st1 = st0\<lparr>github_calls := Suc 0, commit_ids := {c}\<rparr>"
  define p where "p = process_pr e m st1 1 c s1 (json (get_pr e 0 c))"
  have st0: "github_calls st0 = 0" "commit_ids st0 = {}" by (simp_all add: st0_def initial_state_def)
  have b1: "loop_body e m st0 1 [h1, s1] = emit [GetPr c, SeenAdd c] p"
    using resolve_number_ok[OF p1 c ok1, of h1]
    by (simp add: loop_body_unfold st0 Let_def p_def st1_def)
  have t1: "testable e stdout ks =
      (case snd p of
         Next st' \<Rightarrow> emit ([GetPr c, SeenAdd c] @ fst p) (main_loop e m st' [(2, [h2, s2])])
       | Stop oc \<Rightarrow> ([GetPr c, SeenAdd c] @ fst p, oc))"
    unfolding t main_loop_Cons b1 fst_emit snd_emit ..
  have pS: "SeenAdd c \<notin> set (fst p)" and pA: "Echo Info (AlreadySeen c) \<notin> set (fst p)"
    unfolding p_def by (rule process_pr_no_seen_add, rule process_pr_no_already_seen)
  have first: "(fst p \<noteq> [] \<longrightarrow> handling (hd (fst p)))
               \<and> (fst p = [] \<longrightarrow> user (json (get_pr e 0 c)) = Null
                                  \<and> snd p = Stop (Raised AttributeError))"
    unfolding p_def by (rule process_pr_first)
  have "fst (testable e stdout ks)
          = [GetPr c, SeenAdd c] @ fst p
              @ (if snd (testable e stdout ks) = Completed
                 then [GetPr c, Echo Info (AlreadySeen c)] else [])
        \<and> (fst p = [] \<longrightarrow> snd (testable e stdout ks) = Raised AttributeError)
        \<and> filter handling (fst (testable e stdout ks)) = filter handling (fst p)
        \<and> count_list (fst (testable e stdout ks)) (SeenAdd c) = 1
        \<and> (snd (testable e stdout ks) = Completed \<longrightarrow>
             count_list (fst (testable e stdout ks)) (Echo Info (AlreadySeen c)) = 1
             \<and> last (fst (testable e stdout ks)) = Echo Info (AlreadySeen c))"
  proof (cases "snd p")
    case (Stop oc)
    have "oc = Quit \<or> oc = Blocked \<or> oc = Raised AttributeError"
      using Stop unfolding p_def by (rule process_pr_stop)
    moreover have "testable e stdout ks = ([GetPr c, SeenAdd c] @ fst p, oc)"
      using Stop by (simp add: t1)
    ultimately show ?thesis using pS first Stop by (auto simp: count_list_zero)
  next
    case (Next st')
    have st': "commit_ids st' = {c}" "github_calls st' = 1"
      using process_pr_next[OF Next[unfolded p_def]] by (simp_all add: st1_def)
    have b2: "loop_body e m st' 2 [h2, s2]
                = ([GetPr c, Echo Info (AlreadySeen c)], Next (st'\<lparr>github_calls := Suc 1\<rparr>))"
      using resolve_number_ok[OF p2 c ok2, of h2] c
      by (simp add: loop_body_unfold st' Let_def)
    have "main_loop e m st' [(2, [h2, s2])] = ([GetPr c, Echo Info (AlreadySeen c)], Completed)"
      unfolding main_loop_Cons b2 by (simp add: emit_def)
    then have "testable e stdout ks
            = ([GetPr c, SeenAdd c] @ fst p @ [GetPr c, Echo Info (AlreadySeen c)], Completed)"
      using Next by (simp add: t1 emit_def)
    then show ?thesis using pS pA first Next by (simp add: count_list_zero)
  qed
  with first pS pA show ?thesis
    by (simp add: m2 Let_def p_def st1_def st0_def count_list_zero)
qed

theorem duplicate_pr_processed_once_witness:
  "snd (testable example_env example_stdout []) = Completed
   \<and> fst (testable example_env example_stdout [])
       = [GetPr ''10'', SeenAdd ''10'',
          CreateCard ''Core'' (Some ''Fix the check'')
            (''Pull request: https://github.com/DataDog/integrations-core/pull/10''
               @ [CHR 0x0A, CHR 0x0A]),
          Echo Success (CreatedCard ''Core''),
          Echo Info (CardUrl (Some ''https://trello.com/c/1'')),
          GetPr ''10'', Echo Info (AlreadySeen ''10'')]
   \<and> count_list (fst (testable example_env example_stdout [])) (SeenAdd ''10'') = 1
   \<and> count_list (fst (testable example_env example_stdout [])) (Echo Info (AlreadySeen ''10'')) = 1
   \<and> last (fst (testable example_env example_stdout [])) = Echo Info (AlreadySeen ''10'')"
proof -
  have r: "repo example_env = ''integrations-core'' \<or> repo example_env = ''datadog-agent''"
    by (simp add: example_env_def)
  have p: "parse_pr_number example_env ''Fixes #10'' = Some ''10''"
    by (simp add: example_env_def)
  have ok: "\<not> raise_for_status (get_pr example_env n ''10'')" for n
    by (simp add: example_env_def raise_for_status_def)
  have m: "menu_for (repo example_env) 2 = Inr example_menu"
    by (simp add: example_env_def menu_for_core)
  have j: "json (get_pr example_env 0 ''10'') = example_payload"
    by (simp add: example_env_def)
  have fin: "snd (testable example_env example_stdout []) = Completed"
    by code_simp
  show ?thesis
    using duplicate_pr_processed_once [OF r example_diff p p _ ok ok, where ks = "[]"] fin
    by (simp add: m j example_process Let_def)
qed

text \<open>
  Claim C6. A record that passed the duplicate check is skipped when one of its labels
  starts with \<^verbatim>\<open>documentation\<close> and every changelog label it has is the explicit "none" type;
  a record with a changelog label of another type is never skipped as documentation.
\<close>

theorem documentation_label_filter:
  "((\<exists>l \<in> set (labels data). prefix ''documentation'' l)
      \<and> (\<forall>l \<in> set (labels data). prefix CHANGELOG_LABEL_PREFIX l \<longrightarrow>
             l = CHANGELOG_LABEL_PREFIX @ CHANGELOG_TYPE_NONE)
     \<longrightarrow> process_pr e m st i cid subj data = ([Echo Info (SkippingDocumentation cid)], Next st))
   \<and> ((\<exists>l \<in> set (labels data'). prefix CHANGELOG_LABEL_PREFIX l
            \<and> l \<noteq> CHANGELOG_LABEL_PREFIX @ CHANGELOG_TYPE_NONE)
     \<longrightarrow> (\<forall>c. Echo Info (SkippingDocumentation c)
               \<notin> set (fst (process_pr e m st i cid subj data'))))"
  using process_pr_skip_documentation process_pr_changelog_not_skipped by blast

theorem documentation_label_filter_witness:
  "process_pr example_env example_menu (initial_state []) 1 ''10'' ''Fixes #10''
      (empty_payload\<lparr>labels := [''documentation'', ''changelog/no-changelog'']\<rparr>)
     = ([Echo Info (SkippingDocumentation ''10'')], Next (initial_state []))
   \<and> Echo Info (SkippingDocumentation ''10'')
       \<notin> set (fst (process_pr example_env example_menu (initial_state []) 1 ''10'' ''Fixes #10''
                      (empty_payload\<lparr>labels := [''documentation'', ''changelog/Fixed'']\<rparr>)))"
  using documentation_label_filter [of "empty_payload\<lparr>labels := [''documentation'', ''changelog/no-changelog'']\<rparr>"
      example_env example_menu "initial_state []" 1 "''10''" "''Fixes #10''"
      "empty_payload\<lparr>labels := [''documentation'', ''changelog/Fixed'']\<rparr>"]
  by (simp add: CHANGELOG_LABEL_PREFIX_def CHANGELOG_TYPE_NONE_def)



text \<open>
  Claim C8. In the prompt, the default option is the first key of the repository's menu and
  an empty keypress acts as that key. A key that is not in the menu is echoed, and the same
  prompt for the same record and the same progress index is shown again, now with the
  warning that the key is not a valid option.
\<close>

theorem prompt_default_and_invalid_key:
  "(menu_for r n = Inr m \<longrightarrow>
      get_next (options m) = Some (default_option m)
      \<and> map_of (options m) (default_option m) = Some (default_value m)
      \<and> prompt_loop e m i pr ce (st\<lparr>keys := [] # ks\<rparr>)
          = prompt_loop e m i pr ce (st\<lparr>keys := default_option m # ks\<rparr>))
   \<and> (key \<noteq> [] \<and> key \<noteq> [CHR 0x00] \<and> map_of (options m') key = None \<longrightarrow>
        prompt_loop e m' i pr ce (st\<lparr>keys := key # ks\<rparr>)
          = emit (prompt_display m' i pr ce @ [Echo Info (Text key)])
              (prompt_loop e m' i pr (Some key) (st\<lparr>keys := ks\<rparr>))
        \<and> Echo Warning (NotValidOption key) \<in> set (prompt_display m' i pr (Some key)))"
proof (intro conjI impI)
  assume m: "menu_for r n = Inr m"
  show "get_next (options m) = Some (default_option m)" by (rule menu_for_default[OF m])
  show "map_of (options m) (default_option m) = Some (default_value m)"
    by (rule menu_for_default[OF m])
  have d: "default_option m = ''1''" by (rule menu_for_default[OF m])
  have "prompt_loop e m i pr ce (st\<lparr>keys := [] # ks\<rparr>)
          = prompt_loop e m i pr ce (st\<lparr>keys := ''1'' # ks\<rparr>)"
    by (simp add: prompt_loop_key d Let_def split: option.split)
  then show "prompt_loop e m i pr ce (st\<lparr>keys := [] # ks\<rparr>)
          = prompt_loop e m i pr ce (st\<lparr>keys := default_option m # ks\<rparr>)"
    by (simp add: d)
next
  assume k: "key \<noteq> [] \<and> key \<noteq> [CHR 0x00] \<and> map_of (options m') key = None"
  then show "prompt_loop e m' i pr ce (st\<lparr>keys := key # ks\<rparr>)
          = emit (prompt_display m' i pr ce @ [Echo Info (Text key)])
              (prompt_loop e m' i pr (Some key) (st\<lparr>keys := ks\<rparr>))"
    by (simp add: prompt_loop_key Let_def)
  show "Echo Warning (NotValidOption key) \<in> set (prompt_display m' i pr (Some key))"
    by (simp add: prompt_display_def)
qed

theorem prompt_default_and_invalid_key_witness:
  "prompt_loop example_env example_menu 1 example_pr None ((initial_state [])\<lparr>keys := [] # [''s'']\<rparr>)
     = prompt_loop example_env example_menu 1 example_pr None
         ((initial_state [])\<lparr>keys := ''1'' # [''s'']\<rparr>)
   \<and> prompt_loop example_env example_menu 1 example_pr None
         ((initial_state [])\<lparr>keys := ''x'' # [''s'']\<rparr>)
       = emit (prompt_display example_menu 1 example_pr None @ [Echo Info (Text ''x'')])
           (prompt_loop example_env example_menu 1 example_pr (Some ''x'')
              ((initial_state [])\<lparr>keys := [''s'']\<rparr>))
   \<and> Echo Warning (NotValidOption ''x'') \<in> set (prompt_display example_menu 1 example_pr (Some ''x''))"
  using prompt_default_and_invalid_key [where r = "''integrations-core''" and n = 2
      and m = example_menu and m' = example_menu and key = "''x''" and e = example_env
      and i = 1 and pr = example_pr and ce = None and st = "initial_state []" and ks = "[''s'']"]
    menu_for_core
  by (simp add: example_menu_def integrations_core_options_def)

text \<open>
  Claim C2, as the code has it. Every change that the loop reaches and unpacks causes
  exactly one fetch of metadata, by number when the subject names a pull request and by
  commit hash otherwise, and the fetch is the first event of the iteration, before the
  duplicate check. So a run makes at most one fetch for each change of the diff, and
  exactly one for each when it runs to completion. What happens once only is the
  processing: a resolved record whose non-empty commit id is already in the run-scoped set
  is skipped with the "Already seen" message right after its fetch, any other resolved
  record is added to the set and processed, and in a whole run each non-empty commit id
  is added to the set at most once.
\<close>

theorem processed_at_most_once:
  "(fst (loop_body e m st i [h, s]) \<noteq> []
      \<and> hd (fst (loop_body e m st i [h, s]))
          = (if truthy (parse_pr_number e s) then GetPr (format_opt (parse_pr_number e s))
             else GetPrFromHash h (repo e))
      \<and> filter is_fetch (fst (loop_body e m st i [h, s])) = [hd (fst (loop_body e m st i [h, s]))])
   \<and> length (filter is_fetch (fst (testable e stdout ks))) \<le> length (diff_data stdout)
   \<and> (snd (testable e stdout ks) = Completed \<longrightarrow>
        length (filter is_fetch (fst (testable e stdout ks))) = length (diff_data stdout))
   \<and> (snd (resolve e (github_calls st) h s) = Resolved cid data \<longrightarrow>
        loop_body e m st i [h, s]
          = (if cid \<noteq> [] \<and> cid \<in> commit_ids st then
               (fst (resolve e (github_calls st) h s) @ [Echo Info (AlreadySeen cid)],
                Next (st\<lparr>github_calls := Suc (github_calls st)\<rparr>))
             else
               emit (fst (resolve e (github_calls st) h s) @ [SeenAdd cid])
                 (process_pr e m
                    (st\<lparr>github_calls := Suc (github_calls st),
                        commit_ids := insert cid (commit_ids st)\<rparr>) i cid s data)))
   \<and> (c \<noteq> [] \<longrightarrow> count_list (fst (testable e stdout ks)) (SeenAdd c) \<le> 1)"
proof -
  have one: "fst (loop_body e m st i [h, s]) \<noteq> []
      \<and> hd (fst (loop_body e m st i [h, s]))
          = (if truthy (parse_pr_number e s) then GetPr (format_opt (parse_pr_number e s))
             else GetPrFromHash h (repo e))
      \<and> filter is_fetch (fst (loop_body e m st i [h, s])) = [hd (fst (loop_body e m st i [h, s]))]"
    using loop_body_fetch[of e m st i h s] resolve_fetch[of e "github_calls st" h s] by simp
  have dup: "loop_body e m st i [h, s]
          = (if cid \<noteq> [] \<and> cid \<in> commit_ids st then
               (fst (resolve e (github_calls st) h s) @ [Echo Info (AlreadySeen cid)],
                Next (st\<lparr>github_calls := Suc (github_calls st)\<rparr>))
             else
               emit (fst (resolve e (github_calls st) h s) @ [SeenAdd cid])
                 (process_pr e m
                    (st\<lparr>github_calls := Suc (github_calls st),
                        commit_ids := insert cid (commit_ids st)\<rparr>) i cid s data))"
    if "snd (resolve e (github_calls st) h s) = Resolved cid data"
    using that loop_body_duplicate[of cid st e h s data m i] loop_body_process[of e st h s cid data m i]
    by (cases "cid \<noteq> [] \<and> cid \<in> commit_ids st") simp_all
  show ?thesis
    using one dup testable_fetch[of e stdout ks] testable_seen_add_once[of c e stdout ks]
    by blast
qed

theorem processed_at_most_once_witness:
  "snd (testable example_env example_stdout []) = Completed
   \<and> length (diff_data example_stdout) = 2
   \<and> length (filter is_fetch (fst (testable example_env example_stdout []))) = 2
   \<and> count_list (fst (testable example_env example_stdout [])) (SeenAdd ''10'') \<le> 1
   \<and> hd (fst (loop_body example_env example_menu seen_state 2 [''h2'', ''Fixes #10'']))
       = GetPr ''10''
   \<and> filter is_fetch (fst (loop_body example_env example_menu seen_state 2 [''h2'', ''Fixes #10'']))
       = [GetPr ''10'']
   \<and> loop_body example_env example_menu seen_state 2 [''h2'', ''Fixes #10'']
       = ([GetPr ''10'', Echo Info (AlreadySeen ''10'')], Next (seen_state\<lparr>github_calls := 2\<rparr>))"
proof -
  have fin: "snd (testable example_env example_stdout []) = Completed"
    by code_simp
  have p: "parse_pr_number example_env ''Fixes #10'' = Some ''10''"
    by (simp add: example_env_def)
  have seen: "github_calls seen_state = 1" "commit_ids seen_state = {''10''}"
    by (simp_all add: seen_state_def)
  show ?thesis
    using processed_at_most_once [where c = "''10''" and e = example_env
        and stdout = example_stdout and ks = "[]" and cid = "''10''" and st = seen_state
        and h = "''h2''" and s = "''Fixes #10''" and data = example_payload and m = example_menu
        and i = 2] fin
    by (simp add: example_resolve example_diff seen p truthy_def format_opt_def)
qed

text \<open>
  Against claim C2 as stated: in the run over the two changes \<^verbatim>\<open>h1 Fixes #10\<close> and
  \<^verbatim>\<open>h2 Fixes #10\<close> the metadata of pull request 10 is fetched twice.
\<close>

theorem metadata_fetched_twice:
  "count_list (fst (testable example_env example_stdout [])) (GetPr ''10'') = 2"
  by code_simp

text \<open>
  Claim C10. A record whose resolved commit id is the empty string is never skipped as a
  duplicate: no run prints "Already seen" for the empty id, and whatever the set holds,
  the iteration adds the empty id to it and goes on to process the record.
\<close>

theorem empty_commit_id_never_duplicate:
  "Echo Info (AlreadySeen []) \<notin> set (fst (testable e stdout ks))
   \<and> (snd (resolve e (github_calls st) h s) = Resolved [] data \<longrightarrow>
        loop_body e m st i [h, s]
          = emit (fst (resolve e (github_calls st) h s) @ [SeenAdd []])
              (process_pr e m
                 (st\<lparr>github_calls := Suc (github_calls st),
                     commit_ids := insert [] (commit_ids st)\<rparr>) i [] s data))"
proof -
  have "Echo Info (AlreadySeen []) \<notin> set (fst (testable e stdout ks))"
    using main_loop_no_empty_already_seen
    by (auto simp: testable_def Let_def split: sum.splits)
  then show ?thesis using loop_body_empty_id by blast
qed

theorem empty_commit_id_never_duplicate_witness:
  "Echo Info (AlreadySeen []) \<notin> set (fst (testable example_env example_stdout []))
   \<and> [] \<in> commit_ids empty_seen_state
   \<and> loop_body example_env example_menu empty_seen_state 2 [''h2'', ''second commit'']
       = emit [GetPrFromHash ''h2'' ''integrations-core'', SeenAdd []]
           (process_pr example_env example_menu
              (empty_seen_state\<lparr>github_calls := 2, commit_ids := {[]}\<rparr>) 2 [] ''second commit''
              empty_payload)"
  using empty_commit_id_never_duplicate [where e = example_env and stdout = example_stdout
      and ks = "[]" and st = empty_seen_state and h = "''h2''" and s = "''second commit''"
      and data = empty_payload and m = example_menu and i = 2]
  by (simp add: example_resolve_by_hash empty_seen_state_def numeral_2_eq_2)

section \<open>Further properties\<close>

text \<open>
  Further property X1 (lines 59 to 83). Three attempts that all return a generic error: three calls, a sleep of 2 seconds after the first and after the second, and the failure echoed after the third.
\<close>

theorem three_errors_report_failure:
  assumes "\<not> rate_limited (client n team t b) \<and> truthy (error (client n team t b))"
    and "\<not> rate_limited (client (Suc n) team t b) \<and> truthy (error (client (Suc n) team t b))"
    and "\<not> rate_limited (client (Suc (Suc n)) team t b)
         \<and> truthy (error (client (Suc (Suc n)) team t b))"
  shows "attempt_loop client n team t b [0..<3]
           = ([CreateCard team t b, Echo Warning (ErrorRetry 1 3 2), Sleep 2,
               CreateCard team t b, Echo Warning (ErrorRetry 2 3 2), Sleep 2,
               CreateCard team t b,
               Echo Failure (CardError (format_opt (error (client (Suc (Suc n)) team t b))))],
              n + 3)"
  using assms
  by (simp add: range3 emit_def creation_attempts_def Let_def numeral_2_eq_2 numeral_3_eq_3)

theorem three_errors_report_failure_witness:
  "attempt_loop (\<lambda>n team t b. failing_card) 0 ''Core'' (Some ''T'') ''B'' [0..<3]
     = ([CreateCard ''Core'' (Some ''T'') ''B'', Echo Warning (ErrorRetry 1 3 2), Sleep 2,
         CreateCard ''Core'' (Some ''T'') ''B'', Echo Warning (ErrorRetry 2 3 2), Sleep 2,
         CreateCard ''Core'' (Some ''T'') ''B'', Echo Failure (CardError ''boom'')], 3)"
  using three_errors_report_failure [where client = "\<lambda>n team t b. failing_card" and n = 0
      and team = "''Core''" and t = "Some ''T''" and b = "''B''"]
  by (simp add: failing_card_def truthy_def format_opt_def)

text \<open>
  Further property X2 (lines 59 to 83). Two rate-limited attempts and a success: two sleeps of 10 seconds, then the success message and the card's URL; no failure.
\<close>

theorem two_rate_limits_then_success:
  assumes "rate_limited (client n team t b)" and "rate_limited (client (Suc n) team t b)"
    and "\<not> rate_limited (client (Suc (Suc n)) team t b)
         \<and> \<not> truthy (error (client (Suc (Suc n)) team t b))"
  shows "attempt_loop client n team t b [0..<3]
           = ([CreateCard team t b, Echo Warning (RateLimitRetry 1 3 10), Sleep 10,
               CreateCard team t b, Echo Warning (RateLimitRetry 2 3 10), Sleep 10,
               CreateCard team t b, Echo Success (CreatedCard team),
               Echo Info (CardUrl (card_url (client (Suc (Suc n)) team t b)))],
              n + 3)"
  using assms
  by (simp add: range3 emit_def creation_attempts_def Let_def numeral_2_eq_2 numeral_3_eq_3)

theorem two_rate_limits_then_success_witness:
  "attempt_loop (\<lambda>n team t b. if n < 2 then rate_limited_card else ok_card) 0 ''Core'' (Some ''T'') ''B''
       [0..<3]
     = ([CreateCard ''Core'' (Some ''T'') ''B'', Echo Warning (RateLimitRetry 1 3 10), Sleep 10,
         CreateCard ''Core'' (Some ''T'') ''B'', Echo Warning (RateLimitRetry 2 3 10), Sleep 10,
         CreateCard ''Core'' (Some ''T'') ''B'', Echo Success (CreatedCard ''Core''),
         Echo Info (CardUrl (Some ''https://trello.com/c/1''))], 3)"
  using two_rate_limits_then_success
      [where client = "\<lambda>n team t b. if n < 2 then rate_limited_card else ok_card" and n = 0
        and team = "''Core''" and t = "Some ''T''" and b = "''B''"]
  by (simp add: rate_limited_card_def ok_card_def truthy_def)

text \<open>
  Further property X3 (lines 59 to 83). When all three attempts fail, three calls are made, and a failure is echoed exactly when the last attempt is not rate-limited.
\<close>

theorem failure_reported_iff_last_attempt_is_error:
  assumes "rate_limited (client n team t b) \<or> truthy (error (client n team t b))"
    and "rate_limited (client (Suc n) team t b) \<or> truthy (error (client (Suc n) team t b))"
    and "rate_limited (client (Suc (Suc n)) team t b)
         \<or> truthy (error (client (Suc (Suc n)) team t b))"
  shows "(\<exists>msg. Echo Failure msg \<in> set (fst (attempt_loop client n team t b [0..<3])))
           = (\<not> rate_limited (client (Suc (Suc n)) team t b))
         \<and> snd (attempt_loop client n team t b [0..<3]) = n + 3"
  using assms
  by (auto simp add: range3 emit_def creation_attempts_def Let_def numeral_2_eq_2 numeral_3_eq_3)

theorem failure_reported_iff_last_attempt_is_error_witness:
  "(\<exists>msg. Echo Failure msg
        \<in> set (fst (attempt_loop (\<lambda>n team t b. if n < 2 then failing_card else rate_limited_card)
                       0 ''Core'' (Some ''T'') ''B'' [0..<3]))) = False
   \<and> snd (attempt_loop (\<lambda>n team t b. if n < 2 then failing_card else rate_limited_card)
             0 ''Core'' (Some ''T'') ''B'' [0..<3]) = 3"
  using failure_reported_iff_last_attempt_is_error
      [where client = "\<lambda>n team t b. if n < 2 then failing_card else rate_limited_card" and n = 0
        and team = "''Core''" and t = "Some ''T''" and b = "''B''"]
  by (simp add: rate_limited_card_def failing_card_def truthy_def)

text \<open>
  Further property X4 (lines 267 to 270). With a milestone filter that the record's milestone does not match, a record that is not skipped as documentation is skipped with the milestone message.
\<close>

theorem milestone_filter:
  assumes not_doc: "\<not> ((\<exists>l \<in> set (labels data). prefix ''documentation'' l)
             \<and> (\<forall>l \<in> set (labels data). prefix CHANGELOG_LABEL_PREFIX l \<longrightarrow>
                    l = CHANGELOG_LABEL_PREFIX @ CHANGELOG_TYPE_NONE))"
    and "milestone e = Some wanted" and "wanted \<noteq> []" and "milestone_title data \<noteq> wanted"
  shows "process_pr e m st i cid subj data = ([Echo Info (MilestoneMismatch wanted cid)], Next st)"
  using assms by (auto simp: process_pr_def label_flags_eq truthy_def format_opt_def Let_def)

theorem milestone_filter_witness:
  "process_pr (example_env\<lparr>milestone := Some ''7.17.0''\<rparr>) example_menu (initial_state []) 1 ''10''
       ''Fixes #10'' (example_payload\<lparr>milestone_title := ''7.16.0''\<rparr>)
     = ([Echo Info (MilestoneMismatch ''7.17.0'' ''10'')], Next (initial_state []))"
  using milestone_filter [where e = "example_env\<lparr>milestone := Some ''7.17.0''\<rparr>"
      and data = "example_payload\<lparr>milestone_title := ''7.16.0''\<rparr>" and wanted = "''7.17.0''"
      and m = example_menu and st = "initial_state []" and i = 1 and cid = "''10''"
      and subj = "''Fixes #10''"]
  by (simp add: example_env_def example_payload_def empty_payload_def)

text \<open>
  Further property X5 (lines 54 to 58). In a dry run the dispatcher calls nothing: for each team it echoes the card it would create and the title.
\<close>

theorem dry_run_makes_no_call:
  "create_trello_card client n teams t u b True
     = (concat (map (\<lambda>team. [Echo Success (WillCreateCard team), Echo Info (Value t)]) teams), n)"
  by (induction teams) (simp_all add: emit_def Let_def)

text \<open>
  Further property X6 (lines 328 to 336). The key q is Quit in both menus: the prompt echoes the value and the exit warning and the command returns; no later change is looked at.
\<close>

theorem quit_ends_run:
  assumes "menu_for r n = Inr m"
  shows "prompt_loop e m i pr ce (st\<lparr>keys := ''q'' # ks\<rparr>)
           = (prompt_display m i pr ce
                @ [Echo Info (Text ''Quit''), Echo Warning (ExitedAt (commit_id pr))], Stop Quit)
         \<and> (snd (loop_body e m st i change) = Stop Quit \<longrightarrow>
               main_loop e m st ((i, change) # rest) = (fst (loop_body e m st i change), Quit))"
proof -
  have "map_of (options m) ''q'' = Some ''Quit''"
    using assms
    by (auto simp: menu_for_def get_next_def integrations_core_options_def
        datadog_agent_options_def split: if_splits)
  then have "prompt_loop e m i pr ce (st\<lparr>keys := ''q'' # ks\<rparr>)
           = (prompt_display m i pr ce
                @ [Echo Info (Text ''Quit''), Echo Warning (ExitedAt (commit_id pr))], Stop Quit)"
    by (simp add: prompt_loop_key)
  then show ?thesis by (simp add: main_loop_Cons del: main_loop.simps)
qed

theorem quit_ends_run_witness:
  "prompt_loop example_env example_menu 1 example_pr None ((initial_state [])\<lparr>keys := ''q'' # []\<rparr>)
     = (prompt_display example_menu 1 example_pr None
          @ [Echo Info (Text ''Quit''), Echo Warning (ExitedAt ''10'')], Stop Quit)
   \<and> main_loop (example_env\<lparr>label_team_map := (\<lambda>l. None)\<rparr>) example_menu (initial_state [''q''])
         [(1, [''h1'', ''Fixes #10'']), (2, [''h2'', ''Add a check''])]
       = (fst (loop_body (example_env\<lparr>label_team_map := (\<lambda>l. None)\<rparr>) example_menu
                 (initial_state [''q'']) 1 [''h1'', ''Fixes #10'']), Quit)"
proof -
  have q: "snd (loop_body (example_env\<lparr>label_team_map := (\<lambda>l. None)\<rparr>) example_menu
                 (initial_state [''q'']) 1 [''h1'', ''Fixes #10'']) = Stop Quit"
    by code_simp
  show ?thesis
    using quit_ends_run [OF menu_for_core, where e = example_env and i = 1 and pr = example_pr
        and ce = None and st = "initial_state []" and ks = "[]"]
      quit_ends_run [OF menu_for_core, where e = "example_env\<lparr>label_team_map := (\<lambda>l. None)\<rparr>"
        and i = 1 and st = "initial_state [''q'']" and change = "[''h1'', ''Fixes #10'']"
        and rest = "[(2, [''h2'', ''Add a check''])]"] q
    by (simp add: example_pr_def)
qed

text \<open>
  Further property X7 (line 274). A payload whose \<^verbatim>\<open>user\<close> is \<^verbatim>\<open>null\<close>, and which neither filter skips: the lookup of the login raises before any card is dispatched and before the prompt, whatever the labels are.
\<close>

theorem null_user_raises:
  assumes not_doc: "\<not> ((\<exists>l \<in> set (labels data). prefix ''documentation'' l)
             \<and> (\<forall>l \<in> set (labels data). prefix CHANGELOG_LABEL_PREFIX l \<longrightarrow>
                    l = CHANGELOG_LABEL_PREFIX @ CHANGELOG_TYPE_NONE))"
    and ms: "\<not> (truthy (milestone e) \<and> Some (milestone_title data) \<noteq> milestone e)"
    and user: "user data = Null"
  shows "process_pr e m st i cid subj data = ([], Stop (Raised AttributeError))"
  using assms by (auto simp: process_pr_def label_flags_eq author_of_def Let_def)

theorem null_user_raises_witness:
  "process_pr example_env example_menu (initial_state []) 1 ''10'' ''Fixes #10''
       (example_payload\<lparr>user := Null\<rparr>)
     = ([], Stop (Raised AttributeError))"
  using null_user_raises [where e = example_env and data = "example_payload\<lparr>user := Null\<rparr>"
      and m = example_menu and st = "initial_state []" and i = 1 and cid = "''10''"
      and subj = "''Fixes #10''"]
  by (simp add: example_env_def example_payload_def empty_payload_def truthy_def
      CHANGELOG_LABEL_PREFIX_def)

text \<open>
  Further property X8 (lines 275 to 304). A payload whose \<^verbatim>\<open>body\<close> is \<^verbatim>\<open>null\<close> and none of whose labels maps to a team, which neither filter skips: the prompt shows its heading lines and line 304 raises before any key is read.
\<close>

theorem null_body_raises_in_prompt:
  assumes not_doc: "\<not> ((\<exists>l \<in> set (labels data). prefix ''documentation'' l)
             \<and> (\<forall>l \<in> set (labels data). prefix CHANGELOG_LABEL_PREFIX l \<longrightarrow>
                    l = CHANGELOG_LABEL_PREFIX @ CHANGELOG_TYPE_NONE))"
    and ms: "\<not> (truthy (milestone e) \<and> Some (milestone_title data) \<noteq> milestone e)"
    and user: "user data = Absent"
    and body: "body data = Null"
    and unmapped: "\<forall>l \<in> set (labels data). label_team_map e l = None"
  shows "process_pr e m st i cid subj data
           = (prompt_head m i (get_default (title data) (Some subj))
                (get_default (html_url data)
                   (Some (''https://github.com/DataDog/'' @ repo e @ ''/pull/'' @ cid)))
                (Some []) (sort (labels data)) (milestone_title data),
              Stop (Raised AttributeError))"
proof -
  have "List.map_filter (label_team_map e) (sort (labels data)) = []"
    using unmapped map_filter_nonempty[of "label_team_map e" "sort (labels data)"] by auto
  then show ?thesis
    using not_doc ms user body
    by (auto simp: process_pr_def label_flags_eq author_of_def get_default_def Let_def)
qed

theorem null_body_raises_in_prompt_witness:
  "process_pr example_env example_menu (initial_state [''1'']) 1 ''10'' ''Fixes #10''
       (example_payload\<lparr>body := Null, labels := []\<rparr>)
     = ([Echo Success (PrHeading 1 2 ''Fix the check''),
         Echo Success (Text ''Url: ''),
         Echo Info (Value (Some ''https://github.com/DataDog/integrations-core/pull/10'')),
         Echo Success (Text ''Author: ''), Echo Info (Value (Some [])),
         Echo Success (Text ''Labels: ''), Echo Info (Text [])],
        Stop (Raised AttributeError))"
  using null_body_raises_in_prompt [where e = example_env
      and data = "example_payload\<lparr>body := Null, labels := []\<rparr>"
      and m = example_menu and st = "initial_state [''1'']" and i = 1 and cid = "''10''"
      and subj = "''Fixes #10''"]
  by (simp add: example_env_def example_payload_def empty_payload_def truthy_def
      get_default_def format_opt_def prompt_head_def example_menu_def)

end
